theory Spec2Isabelle
  imports Main "HOL-Library.Sublist" "HOL-Library.Multiset"
begin

section \<open>JavaScript values and strings\<close>

text \<open>
  A JavaScript string is a sequence of UTF-16 code units. The model takes the code units
  below 256 (the Latin-1 range): a \<^typ>\<open>char\<close> is one code unit, \<^const>\<open>length\<close> is the
  \<^verbatim>\<open>.length\<close> of the string, and \<^verbatim>\<open>Buffer.from(s)\<close> (UTF-8) writes one byte for a code unit
  below 128 and two bytes for the others.

  \<^typ>\<open>string\<close> values are also the text of files and of socket chunks after decoding
  (\<^verbatim>\<open>'utf8'\<close> in \<^verbatim>\<open>fs.readFile\<close>, \<^verbatim>\<open>socket.setEncoding('utf8')\<close>).
\<close>

datatype json =
    JNull
  | JBool bool
  | JNum int
  | JStr string
  | JArr "json list"
  | JObj "(string \<times> json) list"

text \<open>
  \<^typ>\<open>json\<close> is what \<^verbatim>\<open>JSON.parse\<close> returns: \<^const>\<open>JObj\<close> lists the own properties of an
  object in property order, \<^const>\<open>JNum\<close> is an integer-valued number (numbers with a
  fraction or an exponent are outside the model). \<open>jsval\<close> adds what a value in memory can
  be beyond that: \<^verbatim>\<open>undefined\<close> and \<^verbatim>\<open>Date\<close> objects (by their time value in milliseconds).
\<close>

datatype jsval =
    VUndefined
  | VNull
  | VBool bool
  | VNum int
  | VStr string
  | VDate int
  | VArr "jsval list"
  | VObj "(string \<times> jsval) list"

datatype js_error =
    Error string
  | SyntaxError string
  | SystemError string
  | TypeError string
  | ERR_CRYPTO_TIMING_SAFE_EQUAL_LENGTH

text \<open>
  \<^verbatim>\<open>String(err)\<close>: the name of the error, then its message. For the error of
  \<^verbatim>\<open>crypto.timingSafeEqual\<close> the text is the one Node's own error class prints, with the
  code in brackets, and the messages of the \<^verbatim>\<open>TypeError\<close>s that name a variable of the
  program are abridged; no property below depends on the wording.
\<close>

fun String_of_error :: "js_error \<Rightarrow> string" where
  "String_of_error (Error m) = ''Error: '' @ m"
| "String_of_error (SyntaxError m) = ''SyntaxError: '' @ m"
| "String_of_error (SystemError m) = ''Error: '' @ m"
| "String_of_error (TypeError m) = ''TypeError: '' @ m"
| "String_of_error ERR_CRYPTO_TIMING_SAFE_EQUAL_LENGTH =
     ''RangeError [ERR_CRYPTO_TIMING_SAFE_EQUAL_LENGTH]: Input buffers must have the same byte length''"

text \<open>\<^verbatim>\<open>err instanceof Error ? err.message : String(err)\<close> for the errors of the model.\<close>

fun error_message :: "js_error \<Rightarrow> string" where
  "error_message (Error m) = m"
| "error_message (SyntaxError m) = m"
| "error_message (SystemError m) = m"
| "error_message (TypeError m) = m"
| "error_message ERR_CRYPTO_TIMING_SAFE_EQUAL_LENGTH = ''Input buffers must have the same byte length''"

text \<open>
  Property access \<^verbatim>\<open>v[k]\<close> for the keys the program reads, none of which a prototype
  defines (\<^const>\<open>None\<close> is \<^verbatim>\<open>undefined\<close>); \<^verbatim>\<open>a ?? b\<close>; the values that count as false in
  \<^verbatim>\<open>!v\<close>; and \<^verbatim>\<open>v.length\<close>, which strings and arrays have and an object has when it is
  among its own properties.
\<close>

definition js_get :: "json \<Rightarrow> string \<Rightarrow> json option" where
  "js_get v k = (case v of JObj kvs \<Rightarrow> map_of kvs k | _ \<Rightarrow> None)"

definition nullish_or :: "json option \<Rightarrow> json \<Rightarrow> json" where
  "nullish_or a b = (case a of None \<Rightarrow> b | Some JNull \<Rightarrow> b | Some v \<Rightarrow> v)"

fun falsy :: "json \<Rightarrow> bool" where
  "falsy JNull = True"
| "falsy (JBool b) = (\<not> b)"
| "falsy (JNum n) = (n = 0)"
| "falsy (JStr s) = (s = [])"
| "falsy (JArr xs) = False"
| "falsy (JObj kvs) = False"

fun js_length :: "json \<Rightarrow> json option" where
  "js_length (JStr s) = Some (JNum (int (length s)))"
| "js_length (JArr xs) = Some (JNum (int (length xs)))"
| "js_length (JObj kvs) = map_of kvs ''length''"
| "js_length _ = None"

definition utf8_bytes :: "char \<Rightarrow> nat list" where
  "utf8_bytes c =
     (let n = (of_char c :: nat)
      in if n < 128 then [n] else [192 + n div 64, 128 + n mod 64])"

definition Buffer_from :: "string \<Rightarrow> nat list" where
  "Buffer_from s = concat (map utf8_bytes s)"

text \<open>
  \<^verbatim>\<open>Buffer.from(v)\<close> for a value that \<^verbatim>\<open>JSON.parse\<close> made: the UTF-8 bytes of a string, and
  of an array of numbers the numbers modulo 256. What it makes of an array with an entry
  that is no number (the entry is converted to a number first) and of an object (it may
  be taken for an array by its \<^verbatim>\<open>length\<close>, or the call may throw) is left to the platform:
  \<open>from_object\<close> is a parameter of the model.
\<close>

fun numbers_of :: "json list \<Rightarrow> int list option" where
  "numbers_of [] = Some []"
| "numbers_of (JNum n # xs) = map_option ((#) n) (numbers_of xs)"
| "numbers_of (_ # xs) = None"

definition Buffer_from_value :: "(json \<Rightarrow> js_error + nat list) \<Rightarrow> json \<Rightarrow> js_error + nat list" where
  "Buffer_from_value from_object v =
     (case v of
        JStr s \<Rightarrow> Inr (Buffer_from s)
      | JArr xs \<Rightarrow>
          (case numbers_of xs of
             Some ns \<Rightarrow> Inr (map (\<lambda>n. nat (n mod 256)) ns)
           | None \<Rightarrow> from_object v)
      | _ \<Rightarrow> from_object v)"

text \<open>
  \<^verbatim>\<open>crypto.timingSafeEqual(a, b)\<close> of Node: it throws when the two buffers differ in byte
  length, and otherwise tells whether they hold the same bytes.
\<close>

definition crypto_timingSafeEqual :: "nat list \<Rightarrow> nat list \<Rightarrow> js_error + bool" where
  "crypto_timingSafeEqual ba bb =
     (if length ba \<noteq> length bb then Inl ERR_CRYPTO_TIMING_SAFE_EQUAL_LENGTH
      else Inr (ba = bb))"

text \<open>
  \<^verbatim>\<open>timingSafeEqual(a, b)\<close> of the daemon. Its parameters are declared strings; \<open>b\<close> is the
  secret, a string, and \<open>a\<close> is the \<^verbatim>\<open>token\<close> of a request, which is whatever value the
  request line held.
\<close>

definition timingSafeEqual ::
  "(json \<Rightarrow> js_error + nat list) \<Rightarrow> json \<Rightarrow> string \<Rightarrow> js_error + bool" where
  "timingSafeEqual from_object a b =
     (if js_length a \<noteq> Some (JNum (int (length b))) then Inr False
      else
        (case Buffer_from_value from_object a of
           Inl e \<Rightarrow> Inl e
         | Inr ba \<Rightarrow> crypto_timingSafeEqual ba (Buffer_from b)))"

section \<open>The JSON codec of the platform\<close>

text \<open>
  \<^verbatim>\<open>JSON.stringify\<close> and \<^verbatim>\<open>JSON.parse\<close> belong to the JavaScript runtime, not to the
  repository. They are modelled on \<^typ>\<open>json\<close>: the serialiser as the language standard
  defines it (no indentation, members separated by commas, strings quoted with the short
  escapes and \<^verbatim>\<open>\u00XX\<close> for the other control characters), the parser as a lexer and a
  recursive-descent parser for the same grammar. The parser takes integer literals only
  and \<^verbatim>\<open>\u\<close> escapes of code units below 256; it keeps the members of an object in the
  order of the text, a repeated key keeping its first place and its last value.
\<close>

definition digit_char :: "nat \<Rightarrow> char" where
  "digit_char k = char_of (48 + k)"

function digits_of :: "nat \<Rightarrow> string" where
  "digits_of n = (if n < 10 then [digit_char n] else digits_of (n div 10) @ [digit_char (n mod 10)])"
  by pat_completeness auto
termination
  by (relation "measure id") auto

declare digits_of.simps [simp del]

definition Number_toString :: "int \<Rightarrow> string" where
  "Number_toString i = (if i < 0 then CHR ''-'' # digits_of (nat (- i)) else digits_of (nat i))"

definition hex_char :: "nat \<Rightarrow> char" where
  "hex_char k = (if k < 10 then char_of (48 + k) else char_of (87 + k))"

definition quote_char :: "char \<Rightarrow> string" where
  "quote_char c =
     (if c = CHR 0x22 then [CHR 0x5C, CHR 0x22]
      else if c = CHR 0x5C then [CHR 0x5C, CHR 0x5C]
      else if c = CHR 0x08 then [CHR 0x5C, CHR ''b'']
      else if c = CHR 0x0C then [CHR 0x5C, CHR ''f'']
      else if c = CHR 0x0A then [CHR 0x5C, CHR ''n'']
      else if c = CHR 0x0D then [CHR 0x5C, CHR ''r'']
      else if c = CHR 0x09 then [CHR 0x5C, CHR ''t'']
      else if (of_char c :: nat) < 32
        then [CHR 0x5C, CHR ''u'', CHR ''0'', CHR ''0'',
              hex_char (of_char c div 16), hex_char (of_char c mod 16)]
      else [c])"

definition QuoteJSONString :: "string \<Rightarrow> string" where
  "QuoteJSONString s = CHR 0x22 # concat (map quote_char s) @ [CHR 0x22]"

fun join :: "string \<Rightarrow> string list \<Rightarrow> string" where
  "join sep [] = []"
| "join sep [x] = x"
| "join sep (x # y # ys) = x @ sep @ join sep (y # ys)"

fun JSON_stringify :: "json \<Rightarrow> string" where
  "JSON_stringify JNull = ''null''"
| "JSON_stringify (JBool b) = (if b then ''true'' else ''false'')"
| "JSON_stringify (JNum i) = Number_toString i"
| "JSON_stringify (JStr s) = QuoteJSONString s"
| "JSON_stringify (JArr xs) = ''['' @ join '','' (map JSON_stringify xs) @ '']''"
| "JSON_stringify (JObj kvs) =
     ''{'' @ join '','' (map (\<lambda>(k, v). QuoteJSONString k @ '':'' @ JSON_stringify v) kvs) @ ''}''"

datatype json_token =
    LBrace | RBrace | LBrack | RBrack | Colon | Comma
  | TStr string | TNum int | TTrue | TFalse | TNull

definition is_digit :: "char \<Rightarrow> bool" where
  "is_digit c = (48 \<le> (of_char c :: nat) \<and> (of_char c :: nat) \<le> 57)"

definition is_json_ws :: "char \<Rightarrow> bool" where
  "is_json_ws c = (c = CHR 0x20 \<or> c = CHR 0x09 \<or> c = CHR 0x0A \<or> c = CHR 0x0D)"

definition hex_val :: "char \<Rightarrow> nat option" where
  "hex_val c =
     (let n = (of_char c :: nat)
      in if 48 \<le> n \<and> n \<le> 57 then Some (n - 48)
         else if 97 \<le> n \<and> n \<le> 102 then Some (n - 87)
         else if 65 \<le> n \<and> n \<le> 70 then Some (n - 55)
         else None)"

definition unescape :: "char \<Rightarrow> char option" where
  "unescape e =
     (if e = CHR 0x22 then Some (CHR 0x22)
      else if e = CHR 0x5C then Some (CHR 0x5C)
      else if e = CHR ''/'' then Some (CHR ''/'')
      else if e = CHR ''b'' then Some (CHR 0x08)
      else if e = CHR ''f'' then Some (CHR 0x0C)
      else if e = CHR ''n'' then Some (CHR 0x0A)
      else if e = CHR ''r'' then Some (CHR 0x0D)
      else if e = CHR ''t'' then Some (CHR 0x09)
      else None)"

definition unicode_escape :: "char \<Rightarrow> char \<Rightarrow> char \<Rightarrow> char \<Rightarrow> char option" where
  "unicode_escape a b c d =
     (case (hex_val a, hex_val b, hex_val c, hex_val d) of
        (Some h3, Some h2, Some h1, Some h0) \<Rightarrow>
          (if h3 = 0 \<and> h2 = 0 then Some (char_of (16 * h1 + h0)) else None)
      | _ \<Rightarrow> None)"

text \<open>The characters of a string literal after its opening quote, and the text after it.\<close>

fun lex_string :: "string \<Rightarrow> (string \<times> string) option" where
  "lex_string [] = None"
| "lex_string (c # cs) =
     (if c = CHR 0x22 then Some ([], cs)
      else if c = CHR 0x5C then
        (case cs of
           [] \<Rightarrow> None
         | e # cs' \<Rightarrow>
             (if e = CHR ''u'' then
                (case cs' of
                   h3 # h2 # h1 # h0 # cs'' \<Rightarrow>
                     (case unicode_escape h3 h2 h1 h0 of
                        None \<Rightarrow> None
                      | Some u \<Rightarrow> map_option (\<lambda>(s, r). (u # s, r)) (lex_string cs''))
                 | _ \<Rightarrow> None)
              else
                (case unescape e of
                   None \<Rightarrow> None
                 | Some u \<Rightarrow> map_option (\<lambda>(s, r). (u # s, r)) (lex_string cs'))))
      else if (of_char c :: nat) < 32 then None
      else map_option (\<lambda>(s, r). (c # s, r)) (lex_string cs))"

definition nat_of_digits :: "string \<Rightarrow> nat" where
  "nat_of_digits ds = foldl (\<lambda>a c. 10 * a + (of_char c - 48)) 0 ds"

text \<open>An unsigned integer literal: a single 0, or a nonzero digit and the digits after it.\<close>

definition lex_digits :: "string \<Rightarrow> (nat \<times> string) option" where
  "lex_digits cs =
     (case cs of
        [] \<Rightarrow> None
      | c # cs' \<Rightarrow>
          (if c = CHR ''0'' then Some (0, cs')
           else if is_digit c
             then Some (nat_of_digits (c # takeWhile is_digit cs'), dropWhile is_digit cs')
           else None))"

lemma lex_string_shorter: "lex_string cs = Some (s, r) \<Longrightarrow> length r < length cs"
proof (induction cs arbitrary: s r rule: lex_string.induct)
  case 1
  then show ?case by simp
next
  case (2 c cs)
  show ?case
    using "2.prems" "2.IH"
    by (fastforce split: if_splits list.splits option.splits)
qed

lemma lex_digits_shorter: "lex_digits cs = Some (n, r) \<Longrightarrow> length r < length cs"
  by (auto simp: lex_digits_def less_Suc_eq_le length_dropWhile_le split: list.splits if_splits)

function lex :: "string \<Rightarrow> json_token list option" where
  "lex [] = Some []"
| "lex (c # cs) =
     (if is_json_ws c then lex cs
      else if c = CHR ''{'' then map_option ((#) LBrace) (lex cs)
      else if c = CHR ''}'' then map_option ((#) RBrace) (lex cs)
      else if c = CHR ''['' then map_option ((#) LBrack) (lex cs)
      else if c = CHR '']'' then map_option ((#) RBrack) (lex cs)
      else if c = CHR '':'' then map_option ((#) Colon) (lex cs)
      else if c = CHR '','' then map_option ((#) Comma) (lex cs)
      else if c = CHR 0x22 then
        (case lex_string cs of
           None \<Rightarrow> None
         | Some (s, r) \<Rightarrow> map_option ((#) (TStr s)) (lex r))
      else if c = CHR ''-'' then
        (case lex_digits cs of
           None \<Rightarrow> None
         | Some (n, r) \<Rightarrow> map_option ((#) (TNum (- int n))) (lex r))
      else if is_digit c then
        (case lex_digits (c # cs) of
           None \<Rightarrow> None
         | Some (n, r) \<Rightarrow> map_option ((#) (TNum (int n))) (lex r))
      else if take 4 (c # cs) = ''true'' then map_option ((#) TTrue) (lex (drop 3 cs))
      else if take 4 (c # cs) = ''null'' then map_option ((#) TNull) (lex (drop 3 cs))
      else if take 5 (c # cs) = ''false'' then map_option ((#) TFalse) (lex (drop 4 cs))
      else None)"
  by pat_completeness auto
termination lex
proof (relation "measure length")
qed (auto dest: lex_string_shorter lex_digits_shorter)

text \<open>
  Defining a property of an object: a key the object has keeps its place and takes the
  new value, a new key goes last.
\<close>

fun obj_put :: "(string \<times> 'a) list \<Rightarrow> string \<Rightarrow> 'a \<Rightarrow> (string \<times> 'a) list" where
  "obj_put [] k v = [(k, v)]"
| "obj_put ((k', v') # kvs) k v = (if k' = k then (k, v) # kvs else (k', v') # obj_put kvs k v)"

text \<open>
  The parser proper. Its first argument bounds the number of nested calls; \<open>parse_json_text\<close>
  starts it with twice the number of tokens, and every call that goes one level down has
  read a token or is followed by one that does.
\<close>

fun parse_value :: "nat \<Rightarrow> json_token list \<Rightarrow> (json \<times> json_token list) option"
  and parse_elems :: "nat \<Rightarrow> json list \<Rightarrow> json_token list \<Rightarrow> (json \<times> json_token list) option"
  and parse_members ::
    "nat \<Rightarrow> (string \<times> json) list \<Rightarrow> json_token list \<Rightarrow> (json \<times> json_token list) option"
where
  "parse_value 0 ts = None"
| "parse_value (Suc n) [] = None"
| "parse_value (Suc n) (t # ts) =
     (case t of
        TNull \<Rightarrow> Some (JNull, ts)
      | TTrue \<Rightarrow> Some (JBool True, ts)
      | TFalse \<Rightarrow> Some (JBool False, ts)
      | TNum i \<Rightarrow> Some (JNum i, ts)
      | TStr s \<Rightarrow> Some (JStr s, ts)
      | LBrack \<Rightarrow>
          (case ts of
             RBrack # ts' \<Rightarrow> Some (JArr [], ts')
           | _ \<Rightarrow> parse_elems n [] ts)
      | LBrace \<Rightarrow>
          (case ts of
             RBrace # ts' \<Rightarrow> Some (JObj [], ts')
           | _ \<Rightarrow> parse_members n [] ts)
      | _ \<Rightarrow> None)"
| "parse_elems 0 acc ts = None"
| "parse_elems (Suc n) acc ts =
     (case parse_value n ts of
        None \<Rightarrow> None
      | Some (v, ts') \<Rightarrow>
          (case ts' of
             Comma # ts'' \<Rightarrow> parse_elems n (acc @ [v]) ts''
           | RBrack # ts'' \<Rightarrow> Some (JArr (acc @ [v]), ts'')
           | _ \<Rightarrow> None))"
| "parse_members 0 acc ts = None"
| "parse_members (Suc n) acc ts =
     (case ts of
        TStr k # Colon # ts' \<Rightarrow>
          (case parse_value n ts' of
             None \<Rightarrow> None
           | Some (v, ts'') \<Rightarrow>
               (case ts'' of
                  Comma # r \<Rightarrow> parse_members n (obj_put acc k v) r
                | RBrace # r \<Rightarrow> Some (JObj (obj_put acc k v), r)
                | _ \<Rightarrow> None))
      | _ \<Rightarrow> None)"

definition parse_json_text :: "string \<Rightarrow> json option" where
  "parse_json_text text =
     (case lex text of
        None \<Rightarrow> None
      | Some ts \<Rightarrow>
          (case parse_value (2 * length ts + 2) ts of
             Some (v, []) \<Rightarrow> Some v
           | _ \<Rightarrow> None))"

text \<open>
  \<^verbatim>\<open>JSON.parse(text)\<close>: the value, or a thrown \<^verbatim>\<open>SyntaxError\<close> (its message stands for
  whatever the runtime says).
\<close>

definition JSON_parse :: "string \<Rightarrow> js_error + json" where
  "JSON_parse text =
     (case parse_json_text text of
        None \<Rightarrow> Inl (SyntaxError ''Unexpected token in JSON'')
      | Some v \<Rightarrow> Inr v)"

section \<open>Promises and exceptions\<close>

text \<open>
  A computation that may throw (a promise that may reject) is a value of \<open>js_error + 'a\<close>,
  \<^const>\<open>Inl\<close> the thrown error. \<open>and_then\<close> is sequencing (\<^verbatim>\<open>await\<close>), \<open>try_catch\<close> is
  \<^verbatim>\<open>try { ... } catch { ... }\<close>.
\<close>

definition and_then :: "js_error + 'a \<Rightarrow> ('a \<Rightarrow> js_error + 'b) \<Rightarrow> js_error + 'b" where
  "and_then m f = (case m of Inl e \<Rightarrow> Inl e | Inr x \<Rightarrow> f x)"

definition try_catch :: "js_error + 'a \<Rightarrow> (js_error \<Rightarrow> js_error + 'a) \<Rightarrow> js_error + 'a" where
  "try_catch body handler = (case body of Inl e \<Rightarrow> handler e | Inr x \<Rightarrow> Inr x)"

section \<open>The file system\<close>

text \<open>
  \<^verbatim>\<open>node:fs/promises\<close>, as far as the State Store uses it. A path is the list of its
  components. The file system holds the directories, the regular files with their text
  and permission bits, and the paths the process is refused access to.
\<close>

type_synonym path = "string list"

record regular_file =
  content :: string
  mode :: nat

record filesystem =
  dirs :: "path set"
  files :: "path \<rightharpoonup> regular_file"
  denied :: "path set"

text \<open>\<^verbatim>\<open>fs.mkdir(p, {recursive: true})\<close>: \<open>p\<close> and every directory above it.\<close>

definition fs_mkdir_recursive :: "filesystem \<Rightarrow> path \<Rightarrow> js_error + filesystem" where
  "fs_mkdir_recursive fs p =
     (if files fs p \<noteq> None then Inl (SystemError ''EEXIST'')
      else if list_ex (\<lambda>q. files fs q \<noteq> None) (prefixes p) then Inl (SystemError ''ENOTDIR'')
      else if list_ex (\<lambda>q. q \<notin> dirs fs \<and> q \<in> denied fs) (prefixes p) then Inl (SystemError ''EACCES'')
      else Inr (fs\<lparr>dirs := dirs fs \<union> set (prefixes p)\<rparr>))"

text \<open>
  \<^verbatim>\<open>fs.writeFile(p, data, {encoding: 'utf8', mode})\<close>: the permission bits are those of the
  call for a file it creates, and stay what they were for a file it overwrites.
\<close>

definition fs_writeFile :: "filesystem \<Rightarrow> path \<Rightarrow> string \<Rightarrow> nat \<Rightarrow> js_error + filesystem" where
  "fs_writeFile fs p data m =
     (if p \<in> dirs fs then Inl (SystemError ''EISDIR'')
      else if butlast p \<notin> dirs fs then Inl (SystemError ''ENOENT'')
      else if p \<in> denied fs then Inl (SystemError ''EACCES'')
      else Inr (fs\<lparr>files := (files fs)(p \<mapsto>
             \<lparr>content = data, mode = (case files fs p of None \<Rightarrow> m | Some f \<Rightarrow> mode f)\<rparr>)\<rparr>))"

definition fs_readFile :: "filesystem \<Rightarrow> path \<Rightarrow> js_error + string" where
  "fs_readFile fs p =
     (case files fs p of
        None \<Rightarrow> Inl (SystemError (if p \<in> dirs fs then ''EISDIR'' else ''ENOENT''))
      | Some f \<Rightarrow> if p \<in> denied fs then Inl (SystemError ''EACCES'') else Inr (content f))"

definition fs_unlink :: "filesystem \<Rightarrow> path \<Rightarrow> js_error + filesystem" where
  "fs_unlink fs p =
     (case files fs p of
        None \<Rightarrow> Inl (SystemError (if p \<in> dirs fs then ''EPERM'' else ''ENOENT''))
      | Some f \<Rightarrow>
          if p \<in> denied fs then Inl (SystemError ''EACCES'')
          else Inr (fs\<lparr>files := (files fs)(p := None)\<rparr>))"

section \<open>The State Store\<close>

text \<open>
  \<^verbatim>\<open>daemon/state.ts\<close> and \<^verbatim>\<open>readDaemonState\<close> of \<^verbatim>\<open>utils/ipc.ts\<close>. \<open>home\<close> is
  \<^verbatim>\<open>os.homedir()\<close>.
\<close>

record DaemonState =
  pid :: int
  port :: int
  startedAt :: string
  token :: string

definition DAEMON_STATE_FILE :: "path \<Rightarrow> path" where
  "DAEMON_STATE_FILE home = home @ [''.whatsapp-cli'', ''daemon.json'']"

definition path_dirname :: "path \<Rightarrow> path" where
  "path_dirname p = butlast p"

text \<open>
  The object \<^verbatim>\<open>{pid, port, startedAt, token}\<close> as the serialiser sees it. The mode of
  the state file is \<^verbatim>\<open>0o600\<close>, which is 384.
\<close>

definition DaemonState_json :: "DaemonState \<Rightarrow> json" where
  "DaemonState_json st =
     JObj [(''pid'', JNum (pid st)), (''port'', JNum (port st)),
           (''startedAt'', JStr (startedAt st)), (''token'', JStr (token st))]"

definition writeDaemonState :: "path \<Rightarrow> DaemonState \<Rightarrow> filesystem \<Rightarrow> js_error + filesystem" where
  "writeDaemonState home st fs =
     and_then (fs_mkdir_recursive fs (path_dirname (DAEMON_STATE_FILE home)))
       (\<lambda>fs1. fs_writeFile fs1 (DAEMON_STATE_FILE home) (JSON_stringify (DaemonState_json st)) 384)"

definition removeDaemonState :: "path \<Rightarrow> filesystem \<Rightarrow> js_error + filesystem" where
  "removeDaemonState home fs =
     try_catch (fs_unlink fs (DAEMON_STATE_FILE home)) (\<lambda>_. Inr fs)"

text \<open>
  \<^verbatim>\<open>readDaemonState\<close> returns \<^verbatim>\<open>JSON.parse(raw) as DaemonState\<close>: the cast checks nothing, so
  the result is whatever value the text denotes, and \<^verbatim>\<open>null\<close> (\<^const>\<open>JNull\<close>) from the
  \<^verbatim>\<open>catch\<close>. The parser is a parameter, \<^const>\<open>JSON_parse\<close> in the program.
\<close>

definition readDaemonState :: "(string \<Rightarrow> js_error + json) \<Rightarrow> path \<Rightarrow> filesystem \<Rightarrow> js_error + json" where
  "readDaemonState parse home fs =
     try_catch (and_then (fs_readFile fs (DAEMON_STATE_FILE home)) parse) (\<lambda>_. Inr JNull)"

text \<open>
  The descriptor a value is, when it has the four fields with their types; and the
  descriptors the data model calls valid: a process id and a port that are integers a
  number holds exactly, the port in (0, 65535], the token 64 hexadecimal characters.
\<close>

definition as_DaemonState :: "json \<Rightarrow> DaemonState option" where
  "as_DaemonState v =
     (case v of
        JObj kvs \<Rightarrow>
          (case (map_of kvs ''pid'', map_of kvs ''port'', map_of kvs ''startedAt'', map_of kvs ''token'') of
             (Some (JNum p), Some (JNum q), Some (JStr s), Some (JStr t)) \<Rightarrow>
               Some \<lparr>pid = p, port = q, startedAt = s, token = t\<rparr>
           | _ \<Rightarrow> None)
      | _ \<Rightarrow> None)"

definition is_hex_char :: "char \<Rightarrow> bool" where
  "is_hex_char c = (hex_val c \<noteq> None)"

definition valid_DaemonState :: "DaemonState \<Rightarrow> bool" where
  "valid_DaemonState st =
     (\<bar>pid st\<bar> < 2 ^ 53 \<and> 0 < port st \<and> port st \<le> 65535
      \<and> length (token st) = 64 \<and> list_all is_hex_char (token st))"

section \<open>The daemon\<close>

subsection \<open>The Session and the RPC types\<close>

text \<open>
  The Session (\<^verbatim>\<open>WhatsAppClient\<close>) is an external collaborator: a state of some type \<open>'s\<close>,
  its \<^verbatim>\<open>status\<close> and its \<^verbatim>\<open>destroy\<close>, which the model takes as parameters. Its other
  operations are asynchronous: the handler calls one and is suspended until the
  operation settles, with a value or an error that the environment supplies. The
  arguments of a call are the properties the handler reads from the request's
  \<^verbatim>\<open>params\<close>, absent (\<^const>\<open>None\<close>) when \<^verbatim>\<open>undefined\<close>.
\<close>

datatype session_call =
    GetThreads
  | SearchThreads json
  | FindChatByName "json option"
  | GetMessages "json option" "json option"
  | SendMessage "json option" "json option"
  | SendFile "json option" "json option" json
  | ReplyToMessage "json option" "json option"

record 's WhatsAppClient =
  client_status :: "'s \<Rightarrow> jsval"
  client_destroy :: "'s \<Rightarrow> 's"

text \<open>
  \<^verbatim>\<open>type RpcRequest = {id: string; method: string; params?: unknown; token?: string}\<close> and
  \<^verbatim>\<open>type RpcResponse = {id: string; result?: unknown; error?: string}\<close>. The daemon casts
  what \<^verbatim>\<open>JSON.parse\<close> returns to \<^verbatim>\<open>RpcRequest\<close> and checks nothing, so a request is any
  \<^typ>\<open>json\<close> value here, and the \<^verbatim>\<open>id\<close> of a response of the daemon is whatever the request
  had for its \<^verbatim>\<open>id\<close>, \<^verbatim>\<open>undefined\<close> (\<^const>\<open>None\<close>) when it had none. On the client's side
  the \<^verbatim>\<open>id\<close> of a response is compared with a string. The result of a response is a
  value in memory on the daemon's side and a decoded JSON value on the client's side.
\<close>

record ('i, 'v) RpcResponse =
  rs_id :: 'i
  rs_result :: "'v option"
  rs_error :: "string option"

definition result_response :: "'i \<Rightarrow> 'v \<Rightarrow> ('i, 'v) RpcResponse" where
  "result_response i v = \<lparr>rs_id = i, rs_result = Some v, rs_error = None\<rparr>"

definition error_response :: "'i \<Rightarrow> string \<Rightarrow> ('i, 'v) RpcResponse" where
  "error_response i m = \<lparr>rs_id = i, rs_result = None, rs_error = Some m\<rparr>"

type_synonym reply = "(json option, jsval) RpcResponse"

text \<open>
  The string a template literal makes of a value, \<^verbatim>\<open>`${v}`\<close>: an array joins its entries
  with commas, \<^verbatim>\<open>null\<close> entries giving nothing; an object is \<^verbatim>\<open>[object Object]\<close> unless it
  has a property \<^verbatim>\<open>toString\<close> of its own, which is no function in a value that
  \<^verbatim>\<open>JSON.parse\<close> made, and then the conversion throws.
\<close>

fun ToString :: "json \<Rightarrow> js_error + string"
  and ToString_entries :: "json list \<Rightarrow> js_error + string list" where
  "ToString JNull = Inr ''null''"
| "ToString (JBool b) = Inr (if b then ''true'' else ''false'')"
| "ToString (JNum n) = Inr (Number_toString n)"
| "ToString (JStr s) = Inr s"
| "ToString (JArr xs) =
     (case ToString_entries xs of Inl e \<Rightarrow> Inl e | Inr ss \<Rightarrow> Inr (join '','' ss))"
| "ToString (JObj kvs) =
     (if map_of kvs ''toString'' = None then Inr ''[object Object]''
      else Inl (TypeError ''Cannot convert object to primitive value''))"
| "ToString_entries [] = Inr []"
| "ToString_entries (x # xs) =
     (case (if x = JNull then Inr [] else ToString x) of
        Inl e \<Rightarrow> Inl e
      | Inr s \<Rightarrow> (case ToString_entries xs of Inl e \<Rightarrow> Inl e | Inr ss \<Rightarrow> Inr (s # ss)))"

definition template_string :: "json option \<Rightarrow> js_error + string" where
  "template_string v = (case v of None \<Rightarrow> Inr ''undefined'' | Some j \<Rightarrow> ToString j)"

subsection \<open>The daemon's state\<close>

text \<open>
  What the daemon process holds and what it has done. \<open>immediates\<close> is the queue of
  callbacks given to \<^verbatim>\<open>setImmediate\<close>, which the event loop runs in a later turn;
  \<open>exit_code\<close> is set once the process has ended, and the other fields are then what
  they were at that moment. \<open>trace\<close> records, in order, the
  requests given to \<^verbatim>\<open>handleRequest\<close>, the Session operations invoked, the lines written to
  the socket (by the response they encode), the steps of the shutdown and the end of the
  process with its exit status. Logging is left out.
\<close>

datatype task = ShutdownTask

datatype action =
    HandleRequest json
  | SessionCall session_call
  | SocketWrite reply
  | ServerClose
  | ClientDestroy
  | RemoveDaemonState
  | ProcessExit int

record 's daemon =
  SECRET_TOKEN :: string
  client :: 's
  listening :: bool
  daemon_fs :: filesystem
  daemon_home :: path
  exit_code :: "int option"
  immediates :: "task list"
  trace :: "action list"

subsection \<open>The request handler\<close>

text \<open>
  \<^verbatim>\<open>handleRequest\<close> is an \<^verbatim>\<open>async\<close> function. It runs at once up to its first \<^verbatim>\<open>await\<close>, and
  every branch of its \<^verbatim>\<open>switch\<close> awaits at most one Session operation and then returns.
  So a call either has returned its response, or is suspended on a Session operation
  with what it will do with the value: return it (\<open>Pass\<close>), return it or \<^verbatim>\<open>null\<close> for
  \<^verbatim>\<open>undefined\<close> (\<open>OrNull\<close>, the \<^verbatim>\<open>thread ?? null\<close> of \<^verbatim>\<open>findChatByName\<close>), or return \<^verbatim>\<open>null\<close>
  (\<open>ToNull\<close>). \<open>resume\<close> is the rest of the function once the operation has settled: the
  \<^verbatim>\<open>return {id, result}\<close>, or the \<^verbatim>\<open>catch\<close> that turns a thrown error into
  \<^verbatim>\<open>{id, error: message}\<close>.
\<close>

datatype after = Pass | OrNull | ToNull

datatype handler_state = Returned reply | Awaiting session_call after

fun apply_after :: "after \<Rightarrow> jsval \<Rightarrow> jsval" where
  "apply_after Pass v = v"
| "apply_after OrNull v = (if v = VUndefined \<or> v = VNull then VNull else v)"
| "apply_after ToNull v = VNull"

definition resume :: "json option \<Rightarrow> after \<Rightarrow> js_error + jsval \<Rightarrow> reply" where
  "resume i k r =
     (case r of
        Inl e \<Rightarrow> error_response i (error_message e)
      | Inr v \<Rightarrow> result_response i (apply_after k v))"

definition call_session :: "session_call \<Rightarrow> after \<Rightarrow> 's daemon \<Rightarrow> handler_state \<times> 's daemon" where
  "call_session c k d = (Awaiting c k, d\<lparr>trace := trace d @ [SessionCall c]\<rparr>)"

text \<open>
  The \<^verbatim>\<open>switch (method)\<close>, inside the \<^verbatim>\<open>try\<close>: a \<^verbatim>\<open>case\<close> is taken when \<open>method\<close> is that
  string, and the \<^verbatim>\<open>default\<close> builds its message from whatever \<open>method\<close> is; an error
  thrown there is caught and becomes the \<^verbatim>\<open>error\<close> of the response.
\<close>

definition run_method ::
  "'s WhatsAppClient \<Rightarrow> json option \<Rightarrow> json option \<Rightarrow> json \<Rightarrow> 's daemon
   \<Rightarrow> handler_state \<times> 's daemon" where
  "run_method ops i method p d =
     (if method = Some (JStr ''ping'') then (Returned (result_response i (VStr ''pong'')), d)
      else if method = Some (JStr ''getStatus'')
        then (Returned (result_response i (client_status ops (client d))), d)
      else if method = Some (JStr ''getThreads'') then call_session GetThreads Pass d
      else if method = Some (JStr ''searchThreads'')
        then call_session (SearchThreads (nullish_or (js_get p ''query'') (JStr ''''))) Pass d
      else if method = Some (JStr ''findChatByName'')
        then call_session (FindChatByName (js_get p ''name'')) OrNull d
      else if method = Some (JStr ''getMessages'')
        then call_session (GetMessages (js_get p ''chatId'') (js_get p ''limit'')) Pass d
      else if method = Some (JStr ''sendMessage'')
        then call_session (SendMessage (js_get p ''chatId'') (js_get p ''text'')) ToNull d
      else if method = Some (JStr ''sendFile'')
        then call_session
               (SendFile (js_get p ''chatId'') (js_get p ''filePath'')
                  (nullish_or (js_get p ''caption'') (JStr '''')))
               ToNull d
      else if method = Some (JStr ''replyToMessage'')
        then call_session (ReplyToMessage (js_get p ''messageId'') (js_get p ''text'')) ToNull d
      else if method = Some (JStr ''stop'')
        then (Returned (result_response i (VStr ''stopping'')),
              d\<lparr>immediates := immediates d @ [ShutdownTask]\<rparr>)
      else
        (case template_string method of
           Inl e \<Rightarrow> (Returned (error_response i (error_message e)), d)
         | Inr s \<Rightarrow> (Returned (error_response i (''Unknown RPC method: '' @ s)), d)))"

text \<open>
  \<^verbatim>\<open>const {id, method, params, token} = req\<close> throws when \<open>req\<close> is \<^verbatim>\<open>null\<close> and reads four
  properties of any other value. It and the token check stand before the \<^verbatim>\<open>try\<close>, so an
  error thrown there or by \<^const>\<open>timingSafeEqual\<close> rejects the promise the function
  returns (\<^const>\<open>Inl\<close>).
\<close>

definition handleRequest ::
  "(json \<Rightarrow> js_error + nat list) \<Rightarrow> 's WhatsAppClient \<Rightarrow> json \<Rightarrow> 's daemon
   \<Rightarrow> js_error + (handler_state \<times> 's daemon)" where
  "handleRequest from_object ops req d =
     (if req = JNull then Inl (TypeError ''Cannot destructure property of null'')
      else
        (let i = js_get req ''id''; method = js_get req ''method'';
             p = nullish_or (js_get req ''params'') (JObj [])
         in case js_get req ''token'' of
              None \<Rightarrow> Inr (Returned (error_response i ''Unauthorized''), d)
            | Some tok \<Rightarrow>
                if falsy tok then Inr (Returned (error_response i ''Unauthorized''), d)
                else
                  (case timingSafeEqual from_object tok (SECRET_TOKEN d) of
                     Inl e \<Rightarrow> Inl e
                   | Inr False \<Rightarrow> Inr (Returned (error_response i ''Unauthorized''), d)
                   | Inr True \<Rightarrow> Inr (run_method ops i method p d))))"

subsection \<open>Shutdown\<close>

text \<open>
  \<^verbatim>\<open>shutdown\<close> closes the listener, awaits \<^verbatim>\<open>client.destroy()\<close> (whose rejection it
  swallows), awaits \<^verbatim>\<open>removeDaemonState()\<close> and calls \<^verbatim>\<open>process.exit(0)\<close>. The model
  takes the four steps in one turn, in this order. \<open>run_immediate\<close> is the turn of the
  event loop that runs the next callback queued with \<^verbatim>\<open>setImmediate\<close>.
\<close>

definition shutdown :: "'s WhatsAppClient \<Rightarrow> 's daemon \<Rightarrow> 's daemon" where
  "shutdown ops d =
     (let d1 = d\<lparr>listening := False, trace := trace d @ [ServerClose]\<rparr>;
          d2 = d1\<lparr>client := client_destroy ops (client d1), trace := trace d1 @ [ClientDestroy]\<rparr>
      in case removeDaemonState (daemon_home d2) (daemon_fs d2) of
           Inl e \<Rightarrow> d2\<lparr>trace := trace d2 @ [RemoveDaemonState]\<rparr>
         | Inr fs' \<Rightarrow>
             d2\<lparr>daemon_fs := fs', exit_code := Some 0,
                trace := trace d2 @ [RemoveDaemonState, ProcessExit 0]\<rparr>)"

definition run_immediate :: "'s WhatsAppClient \<Rightarrow> 's daemon \<Rightarrow> 's daemon" where
  "run_immediate ops d =
     (case immediates d of
        [] \<Rightarrow> d
      | ShutdownTask # ts \<Rightarrow> shutdown ops (d\<lparr>immediates := ts\<rparr>))"

subsection \<open>The connection handler\<close>

text \<open>
  \<^verbatim>\<open>s.split('\n')\<close>, and the lines \<^verbatim>\<open>!line.trim()\<close> skips: those of white space only
  (the white space of the language that a code unit below 256 can be).
\<close>

fun split_nl :: "string \<Rightarrow> string list" where
  "split_nl [] = [[]]"
| "split_nl (c # cs) =
     (if c = CHR 0x0A then [] # split_nl cs
      else (case split_nl cs of [] \<Rightarrow> [[c]] | l # ls \<Rightarrow> (c # l) # ls))"

definition is_js_space :: "char \<Rightarrow> bool" where
  "is_js_space c =
     (c = CHR 0x09 \<or> c = CHR 0x0A \<or> c = CHR 0x0B \<or> c = CHR 0x0C \<or> c = CHR 0x0D
      \<or> c = CHR 0x20 \<or> c = CHR 0xA0)"

definition blank :: "string \<Rightarrow> bool" where
  "blank line = list_all is_js_space line"

text \<open>
  One connection: the buffer of the closure, \<^verbatim>\<open>socket.destroyed\<close>, and the handlers that
  are suspended, each with the \<^verbatim>\<open>id\<close> of its request and what it does on resuming.
  \<open>parse\<close> is \<^verbatim>\<open>JSON.parse\<close>.

  \<open>dispatch\<close> is the call \<^verbatim>\<open>handleRequest(client, server, req).then(...).catch(...)\<close>
  up to the end of the loop. The handler has returned and the \<^verbatim>\<open>then\<close> callback is queued
  with its response (\<open>Answered\<close>); or it is suspended on a Session operation
  (\<open>Suspended\<close>), which settles in a later turn; or it has thrown and the \<^verbatim>\<open>catch\<close>
  callback will come. That callback makes the response \<^verbatim>\<open>{id: req.id, error: String(err)}\<close>
  (\<open>Caught\<close>), and reading \<^verbatim>\<open>req.id\<close> throws in its turn when \<open>req\<close> is \<^verbatim>\<open>null\<close>
  (\<open>Uncaught\<close>): then the promise that \<^verbatim>\<open>catch\<close> returned is rejected and nothing handles
  it.

  The loop over the lines writes the \<^verbatim>\<open>Invalid JSON\<close> answers at once. The callbacks run
  when it is over: those of the handlers that returned, in the order of the calls, then
  those of the handlers that threw (a rejection reaches \<^verbatim>\<open>catch\<close> through the promise of
  \<^verbatim>\<open>then\<close>, one step later). Each callback does nothing when the socket is destroyed.
  When the callbacks are done, a rejection that nothing handled ends the process with
  exit status 1: the program installs no \<^verbatim>\<open>unhandledRejection\<close> handler, and this is what
  Node does then since version 15 (the program asks for version 20).
\<close>

record conn =
  buf :: string
  destroyed :: bool
  pending :: "(json option \<times> after) list"

datatype outcome =
    Answered reply
  | Caught reply
  | Uncaught js_error
  | Suspended "json option" after

definition dispatch ::
  "(json \<Rightarrow> js_error + nat list) \<Rightarrow> 's WhatsAppClient \<Rightarrow> json \<Rightarrow> 's daemon
   \<Rightarrow> outcome \<times> 's daemon" where
  "dispatch from_object ops req d =
     (case handleRequest from_object ops req d of
        Inl e \<Rightarrow>
          (if req = JNull then Uncaught (TypeError ''Cannot read properties of null'')
           else Caught (error_response (js_get req ''id'') (String_of_error e)),
           d)
      | Inr (Returned resp, d') \<Rightarrow> (Answered resp, d')
      | Inr (Awaiting c k, d') \<Rightarrow> (Suspended (js_get req ''id'') k, d'))"

record callbacks =
  ready :: "reply list"
  failed :: "reply list"
  uncaught :: "js_error list"
  waiting :: "(json option \<times> after) list"

definition no_callbacks :: callbacks where
  "no_callbacks = \<lparr>ready = [], failed = [], uncaught = [], waiting = []\<rparr>"

fun process_lines ::
  "(string \<Rightarrow> js_error + json) \<Rightarrow> (json \<Rightarrow> js_error + nat list) \<Rightarrow> 's WhatsAppClient
   \<Rightarrow> string list \<Rightarrow> 's daemon \<Rightarrow> callbacks \<Rightarrow> 's daemon \<times> callbacks" where
  "process_lines parse from_object ops [] d q = (d, q)"
| "process_lines parse from_object ops (line # lines) d q =
     (if blank line then process_lines parse from_object ops lines d q
      else
        (case parse line of
           Inl e \<Rightarrow>
             process_lines parse from_object ops lines
               (d\<lparr>trace := trace d @
                    [SocketWrite (error_response (Some (JStr ''?'')) ''Invalid JSON'')]\<rparr>)
               q
         | Inr req \<Rightarrow>
             (case dispatch from_object ops req (d\<lparr>trace := trace d @ [HandleRequest req]\<rparr>) of
                (Answered resp, d') \<Rightarrow>
                  process_lines parse from_object ops lines d' (q\<lparr>ready := ready q @ [resp]\<rparr>)
              | (Caught resp, d') \<Rightarrow>
                  process_lines parse from_object ops lines d' (q\<lparr>failed := failed q @ [resp]\<rparr>)
              | (Uncaught e, d') \<Rightarrow>
                  process_lines parse from_object ops lines d' (q\<lparr>uncaught := uncaught q @ [e]\<rparr>)
              | (Suspended i k, d') \<Rightarrow>
                  process_lines parse from_object ops lines d'
                    (q\<lparr>waiting := waiting q @ [(i, k)]\<rparr>))))"

definition run_callbacks :: "callbacks \<Rightarrow> 's daemon \<Rightarrow> 's daemon" where
  "run_callbacks q d =
     (let d1 = d\<lparr>trace := trace d @ map SocketWrite (ready q @ failed q)\<rparr>
      in if uncaught q = [] then d1
         else d1\<lparr>exit_code := Some 1, trace := trace d1 @ [ProcessExit 1]\<rparr>)"

definition on_data ::
  "(string \<Rightarrow> js_error + json) \<Rightarrow> (json \<Rightarrow> js_error + nat list) \<Rightarrow> 's WhatsAppClient
   \<Rightarrow> string \<Rightarrow> conn \<times> 's daemon \<Rightarrow> conn \<times> 's daemon" where
  "on_data parse from_object ops chunk cd =
     (case cd of (c, d) \<Rightarrow>
        (let lines = split_nl (buf c @ chunk);
             rest = (if lines = [] then [] else last lines)
         in case process_lines parse from_object ops (butlast lines) d no_callbacks of
              (d1, q) \<Rightarrow>
                (c\<lparr>buf := rest, pending := pending c @ waiting q\<rparr>,
                 if destroyed c then d1 else run_callbacks q d1)))"

text \<open>
  The Session operation of the \<open>n\<close>-th suspended handler settles with \<open>r\<close>: the handler
  resumes and returns, and the callback writes its response unless the socket is
  destroyed.
\<close>

definition on_settled :: "nat \<Rightarrow> js_error + jsval \<Rightarrow> conn \<times> 's daemon \<Rightarrow> conn \<times> 's daemon" where
  "on_settled n r cd =
     (case cd of (c, d) \<Rightarrow>
        (if n < length (pending c)
         then (c\<lparr>pending := take n (pending c) @ drop (Suc n) (pending c)\<rparr>,
               if destroyed c then d
               else d\<lparr>trace := trace d @
                        [SocketWrite (resume (fst (pending c ! n)) (snd (pending c ! n)) r)]\<rparr>)
         else (c, d)))"

subsection \<open>The turns of the event loop\<close>

text \<open>
  What the daemon does in one turn: a chunk arrives on the connection, a Session
  operation settles, the peer closes the socket, a termination signal arrives, or the
  event loop runs the next callback queued with \<^verbatim>\<open>setImmediate\<close>. Nothing runs after
  the process has ended. The Session operations settle when and in the order the
  environment chooses, each in a turn later than the one in which its handler called it;
  a \<open>Settled\<close> turn that names no suspended handler does nothing. \<open>run\<close> takes the turns
  of a list one after another.
\<close>

datatype daemon_event =
    Data string
  | Settled nat "js_error + jsval"
  | SocketClosed
  | Signal
  | Immediate

definition daemon_step ::
  "(string \<Rightarrow> js_error + json) \<Rightarrow> (json \<Rightarrow> js_error + nat list) \<Rightarrow> 's WhatsAppClient
   \<Rightarrow> conn \<times> 's daemon \<Rightarrow> daemon_event \<Rightarrow> conn \<times> 's daemon" where
  "daemon_step parse from_object ops cd e =
     (if exit_code (snd cd) \<noteq> None then cd
      else
        (case e of
           Data chunk \<Rightarrow> on_data parse from_object ops chunk cd
         | Settled n r \<Rightarrow> on_settled n r cd
         | SocketClosed \<Rightarrow> ((fst cd)\<lparr>destroyed := True\<rparr>, snd cd)
         | Signal \<Rightarrow> (fst cd, shutdown ops (snd cd))
         | Immediate \<Rightarrow> (fst cd, run_immediate ops (snd cd))))"

definition run ::
  "(string \<Rightarrow> js_error + json) \<Rightarrow> (json \<Rightarrow> js_error + nat list) \<Rightarrow> 's WhatsAppClient
   \<Rightarrow> daemon_event list \<Rightarrow> conn \<times> 's daemon \<Rightarrow> conn \<times> 's daemon" where
  "run parse from_object ops evs cd = foldl (daemon_step parse from_object ops) cd evs"

section \<open>The client side\<close>

subsection \<open>Date revival\<close>

text \<open>
  \<^verbatim>\<open>ISO_RE = /^\d{4}-\d{2}-\d{2}T\d{2}:\d{2}:\d{2}/\<close>: the pattern is anchored at the start
  only, so \<^verbatim>\<open>test\<close> asks for a prefix of that shape.
\<close>

datatype re_atom = Digit | Lit char

fun matches_prefix :: "re_atom list \<Rightarrow> string \<Rightarrow> bool" where
  "matches_prefix [] s = True"
| "matches_prefix (a # as) [] = False"
| "matches_prefix (a # as) (c # cs) =
     ((case a of Digit \<Rightarrow> is_digit c | Lit l \<Rightarrow> c = l) \<and> matches_prefix as cs)"

definition ISO_RE :: "re_atom list" where
  "ISO_RE =
     [Digit, Digit, Digit, Digit, Lit (CHR ''-''), Digit, Digit, Lit (CHR ''-''), Digit, Digit,
      Lit (CHR ''T''), Digit, Digit, Lit (CHR '':''), Digit, Digit, Lit (CHR '':''), Digit, Digit]"

definition ISO_RE_test :: "string \<Rightarrow> bool" where
  "ISO_RE_test s = matches_prefix ISO_RE s"

text \<open>
  \<^verbatim>\<open>new Date(value).getTime()\<close>, \<^const>\<open>None\<close> for \<^verbatim>\<open>NaN\<close>. The Date parser belongs to the
  runtime. What the model fixes of it is that a string of the date-time shape with a
  month, day, hour, minute or second out of range gives an invalid Date; everything else
  (the calendar, the time zone, the other formats a runtime accepts) is the parameter
  \<open>host\<close>.
\<close>

definition two_digits :: "string \<Rightarrow> nat \<Rightarrow> nat" where
  "two_digits s i = nat_of_digits (take 2 (drop i s))"

definition element_values_legal :: "string \<Rightarrow> bool" where
  "element_values_legal s =
     (1 \<le> two_digits s 5 \<and> two_digits s 5 \<le> 12 \<and> 1 \<le> two_digits s 8 \<and> two_digits s 8 \<le> 31
      \<and> two_digits s 11 \<le> 24 \<and> two_digits s 14 \<le> 59 \<and> two_digits s 17 \<le> 59)"

definition Date_getTime :: "(string \<Rightarrow> int option) \<Rightarrow> string \<Rightarrow> int option" where
  "Date_getTime host s = (if ISO_RE_test s \<and> \<not> element_values_legal s then None else host s)"

text \<open>
  \<^verbatim>\<open>out[k] = v\<close> on the object literal \<^verbatim>\<open>{}\<close>: an own property, but for the key
  \<^verbatim>\<open>__proto__\<close>, which the object inherits as an accessor, so that the assignment defines
  no own property.
\<close>

definition js_assign :: "(string \<times> jsval) list \<Rightarrow> string \<Rightarrow> jsval \<Rightarrow> (string \<times> jsval) list" where
  "js_assign out k v = (if k = ''__proto__'' then out else obj_put out k v)"

fun reviveDates :: "(string \<Rightarrow> int option) \<Rightarrow> json \<Rightarrow> jsval" where
  "reviveDates host JNull = VNull"
| "reviveDates host (JBool b) = VBool b"
| "reviveDates host (JNum n) = VNum n"
| "reviveDates host (JStr s) =
     (if ISO_RE_test s
      then (case Date_getTime host s of None \<Rightarrow> VStr s | Some t \<Rightarrow> VDate t)
      else VStr s)"
| "reviveDates host (JArr xs) = VArr (map (reviveDates host) xs)"
| "reviveDates host (JObj kvs) =
     VObj (foldl (\<lambda>out (k, v). js_assign out k (reviveDates host v)) [] kvs)"

subsection \<open>The low-level call\<close>

text \<open>
  \<^verbatim>\<open>callPort\<close> opens a connection, writes one request line when the socket connects, and
  settles once: with the first line of matching \<^verbatim>\<open>id\<close>, with a socket error, when the
  socket closes, or when its timer fires. The model is given the socket's events up to
  the moment the timer would fire, in order; when none of them settles the promise, the
  timer does. It returns the outcome and what the call did on the network.
\<close>

record wire_request =
  w_id :: string
  w_method :: string
  w_params :: "json option"
  w_token :: "json option"

datatype net_action = Connect "json option" | Send wire_request

datatype socket_event = SockConnect | SockData string | SockError js_error | SockClose

record client_env =
  decode :: "string \<Rightarrow> (string, json) RpcResponse option"
  date_host :: "string \<Rightarrow> int option"
  random_id :: string
  socket_events :: "socket_event list"

record call_state =
  call_buf :: string
  settled :: "(js_error + jsval) option"
  sent :: "net_action list"

definition settle :: "(string \<Rightarrow> int option) \<Rightarrow> (string, json) RpcResponse \<Rightarrow> js_error + jsval" where
  "settle host resp =
     (case rs_error resp of
        Some (c # m) \<Rightarrow> Inl (Error (c # m))
      | _ \<Rightarrow> Inr (case rs_result resp of None \<Rightarrow> VUndefined | Some j \<Rightarrow> reviveDates host j))"

fun scan_lines ::
  "client_env \<Rightarrow> string list \<Rightarrow> (js_error + jsval) option \<Rightarrow> (js_error + jsval) option" where
  "scan_lines env [] st = st"
| "scan_lines env (line # lines) st =
     (if st \<noteq> None \<or> blank line then scan_lines env lines st
      else
        (case decode env line of
           None \<Rightarrow> scan_lines env lines st
         | Some resp \<Rightarrow>
             if rs_id resp = random_id env
             then scan_lines env lines (Some (settle (date_host env) resp))
             else scan_lines env lines st))"

definition quoted :: "string \<Rightarrow> string" where
  "quoted s = CHR 0x22 # s @ [CHR 0x22]"

definition socket_step :: "client_env \<Rightarrow> wire_request \<Rightarrow> call_state \<Rightarrow> socket_event \<Rightarrow> call_state" where
  "socket_step env req st ev =
     (if settled st \<noteq> None then st
      else
        (case ev of
           SockConnect \<Rightarrow> st\<lparr>sent := sent st @ [Send req]\<rparr>
         | SockData chunk \<Rightarrow>
             (let lines = split_nl (call_buf st @ chunk)
              in st\<lparr>call_buf := (if lines = [] then [] else last lines),
                    settled := scan_lines env (butlast lines) None\<rparr>)
         | SockError e \<Rightarrow> st\<lparr>settled := Some (Inl e)\<rparr>
         | SockClose \<Rightarrow>
             st\<lparr>settled := Some (Inl (Error (''Socket closed before response for '' @ quoted (w_method req))))\<rparr>))"

definition callPort ::
  "client_env \<Rightarrow> json option \<Rightarrow> json option \<Rightarrow> string \<Rightarrow> json option \<Rightarrow> nat option
   \<Rightarrow> (js_error + jsval) \<times> net_action list" where
  "callPort env port_arg token_arg method params timeoutMs =
     (let ms = (case timeoutMs of None \<Rightarrow> 30000 | Some t \<Rightarrow> t);
          req = \<lparr>w_id = random_id env, w_method = method, w_params = params, w_token = token_arg\<rparr>;
          st = foldl (socket_step env req)
                 \<lparr>call_buf = [], settled = None, sent = [Connect port_arg]\<rparr> (socket_events env)
      in (case settled st of
            Some r \<Rightarrow> r
          | None \<Rightarrow>
              Inl (Error (''IPC call '' @ quoted method @ '' timed out after ''
                          @ Number_toString (int ms) @ '' ms'')),
          sent st))"

subsection \<open>The IPC proxy\<close>

text \<open>
  The world outside the proxy object, as far as a proxy can touch it: what the client
  process has done on the network, and the daemon with the connection it serves (the
  state file is in the daemon's file system). A method of the proxy makes one
  \<^const>\<open>callPort\<close>; \<^verbatim>\<open>destroy\<close> has an empty body.
\<close>

record IpcClient =
  ipc_port :: "json option"
  ipc_token :: "json option"

record 's world =
  net :: "net_action list"
  running :: "conn \<times> 's daemon"

definition IpcClient_rpc ::
  "client_env \<Rightarrow> IpcClient \<Rightarrow> string \<Rightarrow> json option \<Rightarrow> nat option \<Rightarrow> 's world
   \<Rightarrow> (js_error + jsval) \<times> 's world" where
  "IpcClient_rpc env c method params timeoutMs w =
     (case callPort env (ipc_port c) (ipc_token c) method params timeoutMs of
        (r, acts) \<Rightarrow> (r, w\<lparr>net := net w @ acts\<rparr>))"

definition IpcClient_getThreads :: "client_env \<Rightarrow> IpcClient \<Rightarrow> 's world \<Rightarrow> (js_error + jsval) \<times> 's world" where
  "IpcClient_getThreads env c w = IpcClient_rpc env c ''getThreads'' None (Some 60000) w"

definition IpcClient_sendMessage ::
  "client_env \<Rightarrow> IpcClient \<Rightarrow> string \<Rightarrow> string \<Rightarrow> 's world \<Rightarrow> (js_error + jsval) \<times> 's world" where
  "IpcClient_sendMessage env c chatId text w =
     (case IpcClient_rpc env c ''sendMessage''
             (Some (JObj [(''chatId'', JStr chatId), (''text'', JStr text)])) None w of
        (Inl e, w') \<Rightarrow> (Inl e, w')
      | (Inr _, w') \<Rightarrow> (Inr VUndefined, w'))"

definition IpcClient_destroy :: "IpcClient \<Rightarrow> 's world \<Rightarrow> (js_error + unit) \<times> 's world" where
  "IpcClient_destroy c w = (Inr (), w)"

subsection \<open>The connection strategy\<close>

definition tryConnectDaemon ::
  "(string \<Rightarrow> js_error + json) \<Rightarrow> client_env \<Rightarrow> path \<Rightarrow> filesystem
   \<Rightarrow> js_error + IpcClient option" where
  "tryConnectDaemon parse env home fs =
     and_then (readDaemonState parse home fs)
       (\<lambda>state.
          if falsy state then Inr None
          else
            (case fst (callPort env (js_get state ''port'') (js_get state ''token'') ''ping'' None (Some 1500)) of
               Inl e \<Rightarrow> Inr None
             | Inr v \<Rightarrow> Inr (Some \<lparr>ipc_port = js_get state ''port'', ipc_token = js_get state ''token''\<rparr>)))"

text \<open>
  The slow path waits for the first of: the Session's \<^verbatim>\<open>qr\<close>, \<^verbatim>\<open>ready\<close> or \<^verbatim>\<open>error\<close>
  event, the rejection of \<^verbatim>\<open>initialize()\<close>, and the 90 s timer. The model is given these
  events of the Session up to the moment the timer would fire, in order.
\<close>

datatype boot_event = EvQr | EvReady | EvError js_error | InitializeRejected js_error

definition await_ready :: "boot_event list \<Rightarrow> js_error + unit" where
  "await_ready evs =
     (case evs of
        [] \<Rightarrow> Inl (Error ''Timed out waiting for WhatsApp (90 s). Is your phone connected?'')
      | EvQr # _ \<Rightarrow> Inl (Error ''Not logged in. Run:  whatsapp-cli auth login'')
      | EvReady # _ \<Rightarrow> Inr ()
      | EvError e # _ \<Rightarrow> Inl e
      | InitializeRejected e # _ \<Rightarrow> Inl e)"

datatype 's ClientHandle = Proxy IpcClient | Direct 's

text \<open>
  \<open>fresh\<close> is the Session \<^verbatim>\<open>new WhatsAppClient()\<close> makes, \<open>boot\<close> the events it goes through.
\<close>

definition connectClient ::
  "(string \<Rightarrow> js_error + json) \<Rightarrow> client_env \<Rightarrow> path \<Rightarrow> filesystem \<Rightarrow> 's \<Rightarrow> boot_event list
   \<Rightarrow> js_error + 's ClientHandle" where
  "connectClient parse env home fs fresh boot =
     and_then (tryConnectDaemon parse env home fs)
       (\<lambda>daemon.
          case daemon of
            Some c \<Rightarrow> Inr (Proxy c)
          | None \<Rightarrow> and_then (await_ready boot) (\<lambda>_. Inr (Direct fresh)))"

text \<open>
  The \<^verbatim>\<open>finally\<close> block of a command: \<^verbatim>\<open>client?.destroy().catch(() => {})\<close> on the handle
  it holds.
\<close>

definition cleanup ::
  "'s WhatsAppClient \<Rightarrow> 's ClientHandle \<Rightarrow> 's world \<Rightarrow> 's ClientHandle \<times> 's world" where
  "cleanup ops h w =
     (case h of
        Proxy c \<Rightarrow> (Proxy c, snd (IpcClient_destroy c w))
      | Direct s \<Rightarrow> (Direct (client_destroy ops s), w))"

section \<open>Auxiliary notions\<close>

text \<open>What may follow an integer literal for the lexer to end it there.\<close>

definition no_digit_ahead :: "string \<Rightarrow> bool" where
  "no_digit_ahead rest = (case rest of [] \<Rightarrow> True | c # _ \<Rightarrow> \<not> is_digit c)"

text \<open>
  What the trace says was given to \<^verbatim>\<open>handleRequest\<close> and was written to the socket; the
  part of the daemon's state that no request handler touches; and the request lines of
  claim C2: no newline inside, not blank, and decoded by \<open>parse\<close> to a value other than
  \<^verbatim>\<open>null\<close>, as every object is (a blank line is never valid JSON, so the second
  condition says nothing new of the real parser). \<open>decoded\<close> lists the values that the
  lines decode to.
\<close>

fun handled :: "action list \<Rightarrow> json list" where
  "handled [] = []"
| "handled (a # as) = (case a of HandleRequest r \<Rightarrow> r # handled as | _ \<Rightarrow> handled as)"

fun written :: "action list \<Rightarrow> reply list" where
  "written [] = []"
| "written (a # as) = (case a of SocketWrite r \<Rightarrow> r # written as | _ \<Rightarrow> written as)"

definition same_process :: "'s daemon \<Rightarrow> 's daemon \<Rightarrow> bool" where
  "same_process d d' =
     (SECRET_TOKEN d' = SECRET_TOKEN d \<and> listening d' = listening d \<and> daemon_fs d' = daemon_fs d
      \<and> daemon_home d' = daemon_home d \<and> exit_code d' = exit_code d)"












text \<open>
  The liveness probe of \<^const>\<open>tryConnectDaemon\<close>: the state file reads as a value that
  counts as true, and the \<^verbatim>\<open>ping\<close> call with the port and token read from it resolves.
\<close>

definition probe_succeeds ::
  "(string \<Rightarrow> js_error + json) \<Rightarrow> client_env \<Rightarrow> path \<Rightarrow> filesystem \<Rightarrow> bool" where
  "probe_succeeds parse env home fs =
     (case readDaemonState parse home fs of
        Inl e \<Rightarrow> False
      | Inr state \<Rightarrow>
          \<not> falsy state
          \<and> (case fst (callPort env (js_get state ''port'') (js_get state ''token'') ''ping'' None (Some 1500)) of
                Inl e \<Rightarrow> False
              | Inr v \<Rightarrow> True))"

text \<open>
  The map over the strings of a JSON value, which keeps everything else; and the values
  whose objects, at every depth, have distinct keys and no key \<^verbatim>\<open>__proto__\<close>.
\<close>

fun map_strings :: "(string \<Rightarrow> jsval) \<Rightarrow> json \<Rightarrow> jsval" where
  "map_strings f JNull = VNull"
| "map_strings f (JBool b) = VBool b"
| "map_strings f (JNum n) = VNum n"
| "map_strings f (JStr s) = f s"
| "map_strings f (JArr xs) = VArr (map (map_strings f) xs)"
| "map_strings f (JObj kvs) = VObj (map (\<lambda>(k, v). (k, map_strings f v)) kvs)"

fun well_keyed :: "json \<Rightarrow> bool" where
  "well_keyed (JArr xs) = list_all well_keyed xs"
| "well_keyed (JObj kvs) =
     (distinct (map fst kvs) \<and> ''__proto__'' \<notin> fst ` set kvs \<and> list_all (\<lambda>(k, v). well_keyed v) kvs)"
| "well_keyed v = True"

section \<open>Concrete inputs\<close>

text \<open>
  A secret of 64 hexadecimal characters, and a token of the same \<^verbatim>\<open>.length\<close> made of the
  letter U+00E9, which UTF-8 encodes in two bytes.
\<close>

definition hex_secret :: string where
  "hex_secret = replicate 64 (CHR ''a'')"

definition two_byte_token :: string where
  "two_byte_token = replicate 64 (CHR 0xE9)"

definition ping_with :: "json \<Rightarrow> json" where
  "ping_with tok = JObj [(''id'', JStr ''1''), (''method'', JStr ''ping''), (''token'', tok)]"

text \<open>A home directory, a valid descriptor, and file systems without and with a state file.\<close>

definition example_home :: path where
  "example_home = [''home'', ''user'']"

definition example_state :: DaemonState where
  "example_state = \<lparr>pid = 4242, port = 51234, startedAt = ''2024-05-01T10:00:00.000Z'', token = hex_secret\<rparr>"

definition empty_fs :: filesystem where
  "empty_fs = \<lparr>dirs = {[]}, files = Map.empty, denied = {}\<rparr>"

definition state_file_holding :: "string \<Rightarrow> filesystem" where
  "state_file_holding text =
     \<lparr>dirs = set (prefixes (path_dirname (DAEMON_STATE_FILE example_home))),
      files = [DAEMON_STATE_FILE example_home \<mapsto> \<lparr>content = text, mode = 384\<rparr>],
      denied = {}\<rparr>"

definition empty_token_state :: DaemonState where
  "empty_token_state = \<lparr>pid = 4242, port = 51234, startedAt = ''2024-05-01T10:00:00.000Z'', token = []\<rparr>"

text \<open>
  For the examples: request lines; a cut of a text into three chunks; turns in which the
  chunks arrive and then a Session operation settles; a platform whose \<^verbatim>\<open>Buffer.from\<close>
  throws for what the model leaves to it; a Session with no state; a daemon and a
  connection at their start; a \<^verbatim>\<open>stop\<close> request, and the turns in which its line and then,
  after the queued shutdown, a \<^verbatim>\<open>ping\<close> line arrive; the line \<^verbatim>\<open>null\<close>; a token that is
  the array of the character codes of the secret; a proxy and its world.
\<close>

definition request_of :: "string \<Rightarrow> string \<Rightarrow> json \<Rightarrow> json" where
  "request_of i m t = JObj [(''id'', JStr i), (''method'', JStr m), (''token'', t)]"

definition request_line :: "string \<Rightarrow> string \<Rightarrow> string \<Rightarrow> string" where
  "request_line i m t = JSON_stringify (request_of i m (JStr t))"

definition short_secret :: string where
  "short_secret = ''c0ffee''"





definition strict_platform :: "json \<Rightarrow> js_error + nat list" where
  "strict_platform v = Inl (TypeError ''The first argument must be of type string'')"

definition unit_session :: "unit WhatsAppClient" where
  "unit_session =
     \<lparr>client_status = (\<lambda>_. VStr ''ready''), client_destroy = (\<lambda>s. s)\<rparr>"

definition example_daemon :: "unit daemon" where
  "example_daemon =
     \<lparr>SECRET_TOKEN = short_secret, client = (), listening = True,
      daemon_fs = state_file_holding ''{}'', daemon_home = example_home, exit_code = None,
      immediates = [], trace = []\<rparr>"

definition fresh_conn :: conn where
  "fresh_conn = \<lparr>buf = [], destroyed = False, pending = []\<rparr>"

definition stop_request :: json where
  "stop_request = request_of ''9'' ''stop'' (JStr short_secret)"

definition stop_line :: string where
  "stop_line = request_line ''9'' ''stop'' short_secret"



definition null_line :: string where
  "null_line = ''null''"

definition code_token :: json where
  "code_token = JArr (map (\<lambda>c. JNum (of_char c)) short_secret)"

definition example_proxy :: IpcClient where
  "example_proxy = \<lparr>ipc_port = Some (JNum 51234), ipc_token = Some (JStr short_secret)\<rparr>"

definition example_world :: "unit world" where
  "example_world = \<lparr>net = [], running = (fresh_conn, example_daemon)\<rparr>"

text \<open>
  For the client's side: a runtime that takes every string for a date that it may, a
  runtime that knows one date, a decoded result; the response a line holds, an
  environment of a call with the socket's events, response lines, and a file system with
  the state file of a daemon.
\<close>

definition lenient_host :: "string \<Rightarrow> int option" where
  "lenient_host s = Some 0"

definition example_host :: "string \<Rightarrow> int option" where
  "example_host s = (if s = ''2024-05-01T10:00:00.000Z'' then Some 1714557600000 else None)"

definition example_result :: json where
  "example_result =
     JArr [JObj [(''name'', JStr ''Ada''), (''timestamp'', JStr ''2024-05-01T10:00:00.000Z''),
                 (''unreadCount'', JNum 2), (''note'', JStr ''2024-13-01T00:00:00'')],
           JNull]"

definition response_of_json :: "json \<Rightarrow> (string, json) RpcResponse option" where
  "response_of_json v =
     (case v of
        JObj kvs \<Rightarrow>
          (case map_of kvs ''id'' of
             Some (JStr i) \<Rightarrow>
               Some \<lparr>rs_id = i, rs_result = map_of kvs ''result'',
                     rs_error = (case map_of kvs ''error'' of Some (JStr m) \<Rightarrow> Some m | _ \<Rightarrow> None)\<rparr>
           | _ \<Rightarrow> None)
      | _ \<Rightarrow> None)"

definition example_env :: "socket_event list \<Rightarrow> client_env" where
  "example_env evs =
     \<lparr>decode = (\<lambda>line. case parse_json_text line of None \<Rightarrow> None | Some v \<Rightarrow> response_of_json v),
      date_host = example_host, random_id = ''k3f9x'', socket_events = evs\<rparr>"

definition pong_line :: string where
  "pong_line = JSON_stringify (JObj [(''id'', JStr ''k3f9x''), (''result'', JStr ''pong'')])"

definition unauthorized_line :: string where
  "unauthorized_line = JSON_stringify (JObj [(''id'', JStr ''k3f9x''), (''error'', JStr ''Unauthorized'')])"

definition live_fs :: filesystem where
  "live_fs = state_file_holding (JSON_stringify (DaemonState_json example_state))"

definition pong_events :: "socket_event list" where
  "pong_events =
     [SockConnect, SockData (take 9 pong_line), SockData (drop 9 pong_line @ [CHR 0x0A]), SockClose]"

definition refused_events :: "socket_event list" where
  "refused_events = [SockError (SystemError ''ECONNREFUSED''), SockClose]"

definition unauthorized_events :: "socket_event list" where
  "unauthorized_events = [SockConnect, SockData (unauthorized_line @ [CHR 0x0A]), SockClose]"

section \<open>Authentication\<close>

lemma timingSafeEqual_JStr:
  "timingSafeEqual from_object (JStr a) b =
     (if length a \<noteq> length b then Inr False
      else crypto_timingSafeEqual (Buffer_from a) (Buffer_from b))"
  by (simp add: timingSafeEqual_def Buffer_from_value_def)

lemma timingSafeEqual_same: "timingSafeEqual from_object (JStr s) s = Inr True"
  by (simp add: timingSafeEqual_JStr crypto_timingSafeEqual_def)

lemma Buffer_from_replicate: "length (Buffer_from (replicate n c)) = n * length (utf8_bytes c)"
  by (induction n) (simp_all add: Buffer_from_def)

lemma timingSafeEqual_two_byte_token:
  "timingSafeEqual from_object (JStr two_byte_token) hex_secret = Inl ERR_CRYPTO_TIMING_SAFE_EQUAL_LENGTH"
  by (simp add: timingSafeEqual_JStr crypto_timingSafeEqual_def two_byte_token_def hex_secret_def
      Buffer_from_replicate utf8_bytes_def)

text \<open>
  Claim C1 says that a request whose token is absent or differs from the secret is
  answered \<^verbatim>\<open>{id, error: "Unauthorized"}\<close> for every method, with no effect. The code does
  not do so for every such token: \<^const>\<open>timingSafeEqual\<close> compares the \<^verbatim>\<open>.length\<close> of the two
  strings and then hands their UTF-8 bytes to \<^verbatim>\<open>crypto.timingSafeEqual\<close>, which throws when
  the byte lengths differ. For the \<^verbatim>\<open>ping\<close> request with the token \<^const>\<open>two_byte_token\<close>
  against the secret \<^const>\<open>hex_secret\<close>, \<^const>\<open>handleRequest\<close> rejects, and the answer the
  connection handler writes carries the text of the \<^verbatim>\<open>RangeError\<close>, not
  \<^verbatim>\<open>Unauthorized\<close>. The daemon's state is unchanged.
\<close>

theorem handleRequest_two_byte_token:
  "handleRequest from_object ops (ping_with (JStr two_byte_token)) (d\<lparr>SECRET_TOKEN := hex_secret\<rparr>)
     = Inl ERR_CRYPTO_TIMING_SAFE_EQUAL_LENGTH
   \<and> dispatch from_object ops (ping_with (JStr two_byte_token)) (d\<lparr>SECRET_TOKEN := hex_secret\<rparr>)
     = (Caught (error_response (Some (JStr ''1''))
                  (String_of_error ERR_CRYPTO_TIMING_SAFE_EQUAL_LENGTH)),
        d\<lparr>SECRET_TOKEN := hex_secret\<rparr>)
   \<and> String_of_error ERR_CRYPTO_TIMING_SAFE_EQUAL_LENGTH \<noteq> ''Unauthorized''
   \<and> two_byte_token \<noteq> hex_secret"
proof -
  have ne: "two_byte_token \<noteq> []"
    by (simp add: two_byte_token_def)
  have h: "handleRequest from_object ops (ping_with (JStr two_byte_token)) (d\<lparr>SECRET_TOKEN := hex_secret\<rparr>)
     = Inl ERR_CRYPTO_TIMING_SAFE_EQUAL_LENGTH"
    using ne by (simp add: handleRequest_def ping_with_def js_get_def timingSafeEqual_two_byte_token)
  have "hd two_byte_token \<noteq> hd hex_secret"
    by (simp add: two_byte_token_def hex_secret_def)
  then have "two_byte_token \<noteq> hex_secret"
    by auto
  with h show ?thesis
    by (simp add: dispatch_def) (simp add: ping_with_def js_get_def)
qed

section \<open>The codec on a descriptor\<close>


lemma hex_val_hex_char: "k < 16 \<Longrightarrow> hex_val (hex_char k) = Some k"
  by (auto simp: hex_val_def hex_char_def Let_def)

lemma unicode_escape_low:
  assumes "(of_char c :: nat) < 32"
  shows "unicode_escape (CHR ''0'') (CHR ''0'') (hex_char (of_char c div 16)) (hex_char (of_char c mod 16)) = Some c"
proof -
  have a: "(of_char c :: nat) div 16 < 16" using assms by simp
  have b: "(of_char c :: nat) mod 16 < 16" by simp
  have z: "hex_val (CHR ''0'') = Some 0" by (simp add: hex_val_def)
  have "16 * ((of_char c :: nat) div 16) + of_char c mod 16 = of_char c" by simp
  then show ?thesis
    unfolding unicode_escape_def
    by (simp add: z hex_val_hex_char[OF a] hex_val_hex_char[OF b])
qed



lemma lex_string_plain:
  "c \<noteq> CHR 0x22 \<Longrightarrow> c \<noteq> CHR 0x5C \<Longrightarrow> \<not> (of_char c :: nat) < 32 \<Longrightarrow>
   lex_string (c # cs) = map_option (\<lambda>(s, r). (c # s, r)) (lex_string cs)"
  by simp

lemma lex_string_esc:
  "unescape e = Some u \<Longrightarrow> e \<noteq> CHR ''u'' \<Longrightarrow>
   lex_string (CHR 0x5C # e # cs) = map_option (\<lambda>(s, r). (u # s, r)) (lex_string cs)"
  by simp

lemma lex_string_uni:
  "unicode_escape a b c d = Some u \<Longrightarrow>
   lex_string (CHR 0x5C # CHR ''u'' # a # b # c # d # cs) = map_option (\<lambda>(s, r). (u # s, r)) (lex_string cs)"
  by simp

lemma quote_char_cases:
  "quote_char c = [c] \<and> c \<noteq> CHR 0x22 \<and> c \<noteq> CHR 0x5C \<and> \<not> (of_char c :: nat) < 32
   \<or> (\<exists>e. quote_char c = [CHR 0x5C, e] \<and> unescape e = Some c \<and> e \<noteq> CHR ''u'')
   \<or> quote_char c = [CHR 0x5C, CHR ''u'', CHR ''0'', CHR ''0'', hex_char (of_char c div 16), hex_char (of_char c mod 16)]
       \<and> (of_char c :: nat) < 32"
  unfolding quote_char_def unescape_def
  by (simp del: of_char_eq_iff)



lemma lex_string_quote_char:
  "lex_string (quote_char c @ rst) = map_option (\<lambda>(s, r). (c # s, r)) (lex_string rst)"
  using quote_char_cases[of c]
  by (elim disjE conjE exE)
    (simp_all add: lex_string_plain lex_string_esc lex_string_uni unicode_escape_low del: lex_string.simps)

lemma lex_string_quoted:
  "lex_string (concat (map quote_char s) @ CHR 0x22 # rest) = Some (s, rest)"
proof (induction s)
  case Nil
  show ?case by simp
next
  case (Cons c s)
  have "lex_string (concat (map quote_char (c # s)) @ CHR 0x22 # rest)
      = lex_string (quote_char c @ (concat (map quote_char s) @ CHR 0x22 # rest))"
    by simp
  also have "\<dots> = Some (c # s, rest)"
    by (simp only: lex_string_quote_char Cons.IH) simp
  finally show ?case .
qed

lemma is_digit_digit_char: "k < 10 \<Longrightarrow> is_digit (digit_char k)"
  by (simp add: is_digit_def digit_char_def)

lemma digit_char_val: "k < 10 \<Longrightarrow> (of_char (digit_char k) :: nat) - 48 = k"
  by (simp add: digit_char_def)

lemma digit_char_nonzero: "0 < k \<Longrightarrow> k < 10 \<Longrightarrow> digit_char k \<noteq> CHR ''0''"
proof
  assume k: "0 < k" "k < 10" and e: "digit_char k = CHR ''0''"
  from e have "(of_char (digit_char k) :: nat) = of_char (CHR ''0'')" by simp
  with k show False by (simp add: digit_char_def)
qed

lemma digits_of_all_digits: "list_all is_digit (digits_of n)"
proof (induction n rule: digits_of.induct)
  case (1 n)
  show ?case
  proof (cases "n < 10")
    case True
    then show ?thesis by (subst digits_of.simps) (simp add: is_digit_digit_char)
  next
    case False
    with 1 show ?thesis
      by (subst digits_of.simps) (simp add: is_digit_digit_char)
  qed
qed

lemma nat_of_digits_snoc: "nat_of_digits (ds @ [c]) = 10 * nat_of_digits ds + (of_char c - 48)"
  by (simp add: nat_of_digits_def)

lemma nat_of_digits_of: "nat_of_digits (digits_of n) = n"
proof (induction n rule: digits_of.induct)
  case (1 n)
  show ?case
  proof (cases "n < 10")
    case True
    then show ?thesis by (subst digits_of.simps) (simp add: nat_of_digits_def digit_char_val)
  next
    case False
    then have "nat_of_digits (digits_of n) = 10 * nat_of_digits (digits_of (n div 10)) + n mod 10"
      by (subst digits_of.simps) (simp add: nat_of_digits_snoc digit_char_val)
    with 1 False show ?thesis by simp
  qed
qed

lemma digits_of_nonempty: "digits_of n \<noteq> []"
  by (subst digits_of.simps) simp

lemma hd_digits_of_nonzero: "0 < n \<Longrightarrow> hd (digits_of n) \<noteq> CHR ''0''"
proof (induction n rule: digits_of.induct)
  case (1 n)
  show ?case
  proof (cases "n < 10")
    case True
    with "1.prems" show ?thesis by (subst digits_of.simps) (simp add: digit_char_nonzero)
  next
    case False
    then have "0 < n div 10" by simp
    with 1 False have "hd (digits_of (n div 10)) \<noteq> CHR ''0''" by simp
    with False show ?thesis
      by (subst digits_of.simps) (simp add: digits_of_nonempty)
  qed
qed

lemma char_of_48: "char_of (48::nat) = CHR ''0''"
proof -
  have "(of_char (char_of (48::nat)) :: nat) = of_char (CHR ''0'')" by simp
  then show ?thesis by (simp only: of_char_eq_iff)
qed

lemma digits_of_zero: "digits_of 0 = ''0''"
  by (subst digits_of.simps) (simp add: digit_char_def char_of_48)


lemma takeWhile_digits_append:
  "list_all is_digit ds \<Longrightarrow> no_digit_ahead rest \<Longrightarrow>
   takeWhile is_digit (ds @ rest) = ds \<and> dropWhile is_digit (ds @ rest) = rest"
  by (induction ds) (auto simp: no_digit_ahead_def split: list.splits)

lemma lex_digits_digits_of:
  assumes "no_digit_ahead rest"
  shows "lex_digits (digits_of n @ rest) = Some (n, rest)"
proof (cases "n = 0")
  case True
  then show ?thesis by (simp add: digits_of_zero lex_digits_def)
next
  case False
  obtain c ds where ds: "digits_of n = c # ds"
    using digits_of_nonempty[of n] by (cases "digits_of n") auto
  have all: "list_all is_digit (c # ds)"
    using digits_of_all_digits[of n] ds by simp
  have nz: "c \<noteq> CHR ''0''"
    using hd_digits_of_nonzero[of n] False ds by simp
  have tw: "takeWhile is_digit (ds @ rest) = ds" "dropWhile is_digit (ds @ rest) = rest"
    using takeWhile_digits_append[of ds rest] all assms by simp_all
  have "nat_of_digits (c # ds) = n"
    using nat_of_digits_of[of n] ds by simp
  with all nz tw show ?thesis
    by (simp add: ds lex_digits_def)
qed

lemma lex_punct:
  "lex (CHR ''{'' # r) = map_option ((#) LBrace) (lex r)"
  "lex (CHR ''}'' # r) = map_option ((#) RBrace) (lex r)"
  "lex (CHR '':'' # r) = map_option ((#) Colon) (lex r)"
  "lex (CHR '','' # r) = map_option ((#) Comma) (lex r)"
  by (simp_all add: is_json_ws_def)

lemma lex_QuoteJSONString:
  "lex (QuoteJSONString s @ rest) = map_option ((#) (TStr s)) (lex rest)"
proof -
  have "lex (QuoteJSONString s @ rest) = lex (CHR 0x22 # (concat (map quote_char s) @ CHR 0x22 # rest))"
    by (simp add: QuoteJSONString_def)
  also have "\<dots> = map_option ((#) (TStr s)) (lex rest)"
    by (simp add: is_json_ws_def lex_string_quoted del: lex_string.simps)
  finally show ?thesis .
qed

lemma is_digit_not_special:
  assumes "is_digit c"
  shows "\<not> is_json_ws c" "c \<noteq> CHR ''{''" "c \<noteq> CHR ''}''" "c \<noteq> CHR ''[''" "c \<noteq> CHR '']''"
    "c \<noteq> CHR '':''" "c \<noteq> CHR '',''" "c \<noteq> CHR 0x22" "c \<noteq> CHR ''-''"
  using assms by (auto simp: is_digit_def is_json_ws_def)

lemma lex_digits_of:
  assumes "no_digit_ahead rest"
  shows "lex (digits_of n @ rest) = map_option ((#) (TNum (int n))) (lex rest)"
proof -
  obtain c ds where ds: "digits_of n = c # ds"
    using digits_of_nonempty[of n] by (cases "digits_of n") auto
  have d: "is_digit c"
    using digits_of_all_digits[of n] ds by simp
  have "lex_digits (c # ds @ rest) = Some (n, rest)"
    using lex_digits_digits_of[OF assms, of n] ds by simp
  then show ?thesis
    using is_digit_not_special[OF d] d by (simp add: ds)
qed

lemma lex_Number_toString:
  assumes "no_digit_ahead rest"
  shows "lex (Number_toString i @ rest) = map_option ((#) (TNum i)) (lex rest)"
proof (cases "i < 0")
  case True
  then show ?thesis
    using lex_digits_digits_of[OF assms, of "nat (- i)"]
    by (simp add: Number_toString_def is_json_ws_def)
next
  case False
  then show ?thesis
    using lex_digits_of[OF assms, of "nat i"]
    by (simp add: Number_toString_def)
qed

lemma JSON_stringify_DaemonState:
  "JSON_stringify (DaemonState_json st) =
     CHR ''{'' # QuoteJSONString ''pid'' @ CHR '':'' # Number_toString (pid st) @
     CHR '','' # QuoteJSONString ''port'' @ CHR '':'' # Number_toString (port st) @
     CHR '','' # QuoteJSONString ''startedAt'' @ CHR '':'' # QuoteJSONString (startedAt st) @
     CHR '','' # QuoteJSONString ''token'' @ CHR '':'' # QuoteJSONString (token st) @ ''}''"
  by (simp add: DaemonState_json_def)

lemma lex_DaemonState:
  "lex (JSON_stringify (DaemonState_json st)) =
     Some [LBrace, TStr ''pid'', Colon, TNum (pid st), Comma,
           TStr ''port'', Colon, TNum (port st), Comma,
           TStr ''startedAt'', Colon, TStr (startedAt st), Comma,
           TStr ''token'', Colon, TStr (token st), RBrace]"
proof -
  have nd: "\<And>r. no_digit_ahead (CHR '','' # r)"
    by (simp add: no_digit_ahead_def is_digit_def)
  show ?thesis
    unfolding JSON_stringify_DaemonState
    by (simp only: lex_punct lex_QuoteJSONString lex_Number_toString[OF nd] append_Cons append_Nil
        lex.simps(1) option.map list.simps)
qed

lemma parse_DaemonState_tokens:
  "parse_value 36 [LBrace, TStr ''pid'', Colon, TNum p, Comma,
           TStr ''port'', Colon, TNum q, Comma,
           TStr ''startedAt'', Colon, TStr s, Comma,
           TStr ''token'', Colon, TStr t, RBrace]
   = Some (JObj [(''pid'', JNum p), (''port'', JNum q), (''startedAt'', JStr s), (''token'', JStr t)], [])"
  by (simp add: eval_nat_numeral)

lemma parse_json_text_DaemonState:
  "parse_json_text (JSON_stringify (DaemonState_json st)) = Some (DaemonState_json st)"
  unfolding parse_json_text_def lex_DaemonState
  by (simp add: parse_DaemonState_tokens DaemonState_json_def)

section \<open>Properties of the State Store\<close>

lemma JSON_parse_DaemonState: "JSON_parse (JSON_stringify (DaemonState_json st)) = Inr (DaemonState_json st)"
  by (simp add: JSON_parse_def parse_json_text_DaemonState)

lemma as_DaemonState_json: "as_DaemonState (DaemonState_json st) = Some st"
  by (simp add: as_DaemonState_def DaemonState_json_def)

lemma fs_writeFile_then_readFile:
  "fs_writeFile fs p text m = Inr fs' \<Longrightarrow> fs_readFile fs' p = Inr text"
  by (auto simp: fs_writeFile_def fs_readFile_def split: if_splits)

lemma writeDaemonState_content:
  assumes "writeDaemonState home st fs = Inr fs'"
  shows "fs_readFile fs' (DAEMON_STATE_FILE home) = Inr (JSON_stringify (DaemonState_json st))"
proof -
  from assms obtain fs1 where
    "fs_writeFile fs1 (DAEMON_STATE_FILE home) (JSON_stringify (DaemonState_json st)) 384 = Inr fs'"
    by (auto simp: writeDaemonState_def and_then_def split: sum.splits)
  then show ?thesis by (rule fs_writeFile_then_readFile)
qed

text \<open>
  Claim C5: for every valid descriptor, when \<^const>\<open>writeDaemonState\<close> has written it (the
  write succeeded and nothing else touched the file), \<^const>\<open>readDaemonState\<close> returns the
  object with the same four fields, which read back as the descriptor written.
\<close>

theorem write_then_read:
  assumes "valid_DaemonState st" and "writeDaemonState home st fs = Inr fs'"
  shows "readDaemonState JSON_parse home fs' = Inr (DaemonState_json st)
         \<and> as_DaemonState (DaemonState_json st) = Some st"
  using writeDaemonState_content[OF assms(2)]
  by (simp add: readDaemonState_def and_then_def try_catch_def JSON_parse_DaemonState as_DaemonState_json)

lemma valid_example_state: "valid_DaemonState example_state"
  by (simp add: valid_DaemonState_def example_state_def hex_secret_def is_hex_char_def hex_val_def
      list_all_iff)

lemma write_example: "\<exists>fs'. writeDaemonState example_home example_state empty_fs = Inr fs'"
  by (simp add: writeDaemonState_def and_then_def fs_mkdir_recursive_def fs_writeFile_def
      empty_fs_def example_home_def DAEMON_STATE_FILE_def path_dirname_def prefixes_snoc[symmetric] del: prefixes_snoc)

theorem write_then_read_witness:
  "valid_DaemonState example_state
   \<and> (case writeDaemonState example_home example_state empty_fs of
        Inl e \<Rightarrow> False
      | Inr fs' \<Rightarrow> readDaemonState JSON_parse example_home fs' = Inr (DaemonState_json example_state))"
proof -
  obtain fs' where w: "writeDaemonState example_home example_state empty_fs = Inr fs'"
    using write_example by blast
  from write_then_read[OF valid_example_state w] valid_example_state w
  show ?thesis by simp
qed

text \<open>
  Claim C6: \<^const>\<open>readDaemonState\<close> returns \<^verbatim>\<open>null\<close> when the state file is missing, when it
  cannot be read, and when its text fails to parse; and it never throws, whatever the
  file system holds and whatever the parser does.
\<close>

theorem readDaemonState_absent:
  "(files fs (DAEMON_STATE_FILE home) = None \<longrightarrow> readDaemonState parse home fs = Inr JNull)
   \<and> (\<forall>e. fs_readFile fs (DAEMON_STATE_FILE home) = Inl e \<longrightarrow> readDaemonState parse home fs = Inr JNull)
   \<and> (\<forall>f e. files fs (DAEMON_STATE_FILE home) = Some f \<and> parse (content f) = Inl e
        \<longrightarrow> readDaemonState parse home fs = Inr JNull)
   \<and> (\<exists>v. readDaemonState parse home fs = Inr v)"
  by (auto simp: readDaemonState_def try_catch_def and_then_def fs_readFile_def split: sum.splits option.splits)

lemma parse_truncated: "JSON_parse ''{'' = Inl (SyntaxError ''Unexpected token in JSON'')"
  by code_simp

theorem readDaemonState_absent_witness:
  "files empty_fs (DAEMON_STATE_FILE example_home) = None
   \<and> readDaemonState JSON_parse example_home empty_fs = Inr JNull
   \<and> files (state_file_holding ''{'') (DAEMON_STATE_FILE example_home) = Some \<lparr>content = ''{'', mode = 384\<rparr>
   \<and> JSON_parse ''{'' = Inl (SyntaxError ''Unexpected token in JSON'')
   \<and> readDaemonState JSON_parse example_home (state_file_holding ''{'') = Inr JNull"
proof -
  have a: "files empty_fs (DAEMON_STATE_FILE example_home) = None"
    by (simp add: empty_fs_def)
  have b: "files (state_file_holding ''{'') (DAEMON_STATE_FILE example_home) = Some \<lparr>content = ''{'', mode = 384\<rparr>"
    by (simp add: state_file_holding_def)
  from readDaemonState_absent[of empty_fs example_home JSON_parse] a
  have r1: "readDaemonState JSON_parse example_home empty_fs = Inr JNull" by blast
  from readDaemonState_absent[of "state_file_holding ''{''" example_home JSON_parse] b parse_truncated
  have r2: "readDaemonState JSON_parse example_home (state_file_holding ''{'') = Inr JNull"
    by (metis regular_file.select_convs(1))
  from a b r1 r2 parse_truncated show ?thesis by blast
qed

lemma readDaemonState_present:
  "readDaemonState JSON_parse example_home (state_file_holding text) =
     Inr (case parse_json_text text of None \<Rightarrow> JNull | Some v \<Rightarrow> v)"
  by (simp add: readDaemonState_def try_catch_def and_then_def fs_readFile_def state_file_holding_def
      JSON_parse_def split: option.splits)

lemma parse_empty_object: "parse_json_text ''{}'' = Some (JObj [])"
  by code_simp

text \<open>
  Claim C10: \<^const>\<open>readDaemonState\<close> checks that the text parses and nothing more. A state
  file holding \<^verbatim>\<open>{}\<close> reads as the empty object, which has none of the four fields; a
  state file holding a descriptor with the empty token reads as that descriptor, which is
  not valid. Neither is \<^verbatim>\<open>null\<close>.
\<close>

theorem readDaemonState_checks_no_shape:
  "readDaemonState JSON_parse example_home (state_file_holding ''{}'') = Inr (JObj [])
   \<and> JObj [] \<noteq> JNull \<and> as_DaemonState (JObj []) = None
   \<and> readDaemonState JSON_parse example_home
        (state_file_holding (JSON_stringify (DaemonState_json empty_token_state)))
      = Inr (DaemonState_json empty_token_state)
   \<and> DaemonState_json empty_token_state \<noteq> JNull
   \<and> as_DaemonState (DaemonState_json empty_token_state) = Some empty_token_state
   \<and> token empty_token_state = []
   \<and> \<not> valid_DaemonState empty_token_state"
  by (simp add: readDaemonState_present parse_empty_object parse_json_text_DaemonState
      as_DaemonState_json) (simp add: as_DaemonState_def DaemonState_json_def empty_token_state_def valid_DaemonState_def)

section \<open>Splitting a text into lines\<close>

lemma split_nl_nonempty [simp]: "split_nl s \<noteq> []"
  by (induction s) (auto split: list.splits)



lemma split_nl_line:
  "CHR 0x0A \<notin> set l \<Longrightarrow> split_nl (l @ CHR 0x0A # t) = l # split_nl t"
  by (induction l) (auto split: list.splits)

lemma split_nl_no_newline: "CHR 0x0A \<notin> set s \<Longrightarrow> split_nl s = [s]"
  by (induction s) (auto split: list.splits)


lemma last_split_nl_no_newline: "CHR 0x0A \<notin> set (last (split_nl s))"
proof (induction s)
  case Nil
  show ?case by simp
next
  case (Cons c s)
  obtain l ls where s: "split_nl s = l # ls"
    by (cases "split_nl s") auto
  with Cons show ?case
    by (cases ls) (auto split: if_splits)
qed

section \<open>Who is authenticated\<close>

lemma utf8_bytes_nonempty: "utf8_bytes c \<noteq> []"
  by (simp add: utf8_bytes_def Let_def)

lemma utf8_bytes_prefix_free:
  assumes "utf8_bytes a @ xs = utf8_bytes b @ ys"
  shows "a = b \<and> xs = ys"
proof -
  have lt: "(of_char a :: nat) < 256" "(of_char b :: nat) < 256"
    by simp_all
  have "(of_char a :: nat) = of_char b \<and> xs = ys"
  proof (cases "(of_char a :: nat) < 128"; cases "(of_char b :: nat) < 128")
    assume "(of_char a :: nat) < 128" "(of_char b :: nat) < 128"
    with assms show ?thesis by (simp add: utf8_bytes_def Let_def)
  next
    assume "(of_char a :: nat) < 128" "\<not> (of_char b :: nat) < 128"
    with assms show ?thesis by (simp add: utf8_bytes_def Let_def)
  next
    assume "\<not> (of_char a :: nat) < 128" "(of_char b :: nat) < 128"
    with assms show ?thesis by (simp add: utf8_bytes_def Let_def)
  next
    assume h: "\<not> (of_char a :: nat) < 128" "\<not> (of_char b :: nat) < 128"
    with assms have d: "(of_char a :: nat) div 64 = of_char b div 64"
      and m: "(of_char a :: nat) mod 64 = of_char b mod 64" and x: "xs = ys"
      by (simp_all add: utf8_bytes_def Let_def)
    from d m have "(of_char a :: nat) = of_char b"
      by (metis div_mult_mod_eq)
    with x show ?thesis by simp
  qed
  then show ?thesis by simp
qed

lemma Buffer_from_inj: "Buffer_from a = Buffer_from b \<Longrightarrow> a = b"
proof (induction a arbitrary: b)
  case Nil
  then show ?case
    by (cases b) (simp_all add: Buffer_from_def utf8_bytes_nonempty)
next
  case (Cons x a)
  show ?case
  proof (cases b)
    case Nil
    with Cons.prems show ?thesis
      by (simp add: Buffer_from_def utf8_bytes_nonempty)
  next
    case (Cons y b')
    with Cons.prems have "utf8_bytes x @ Buffer_from a = utf8_bytes y @ Buffer_from b'"
      by (simp add: Buffer_from_def)
    then have "x = y" "Buffer_from a = Buffer_from b'"
      using utf8_bytes_prefix_free by blast+
    with Cons.IH Cons show ?thesis by simp
  qed
qed

lemma timingSafeEqual_True_iff: "timingSafeEqual from_object (JStr a) b = Inr True \<longleftrightarrow> a = b"
  by (auto simp: timingSafeEqual_JStr crypto_timingSafeEqual_def dest: Buffer_from_inj)

lemma timingSafeEqual_cases:
  "timingSafeEqual from_object (JStr a) b =
     (if length a \<noteq> length b then Inr False
      else if length (Buffer_from a) \<noteq> length (Buffer_from b) then Inl ERR_CRYPTO_TIMING_SAFE_EQUAL_LENGTH
      else Inr (a = b))"
  by (auto simp: timingSafeEqual_JStr crypto_timingSafeEqual_def dest: Buffer_from_inj)

text \<open>
  A token need not be a string to pass: a value with the \<^verbatim>\<open>length\<close> of the secret of
  which \<^verbatim>\<open>Buffer.from\<close> makes the bytes of the secret passes too, such as the array of
  the character codes of a secret of ASCII characters.
\<close>

lemma timingSafeEqual_code_token: "timingSafeEqual from_object code_token short_secret = Inr True"
  by (simp add: timingSafeEqual_def Buffer_from_value_def code_token_def short_secret_def
      crypto_timingSafeEqual_def Buffer_from_def utf8_bytes_def)

text \<open>
  Where the handler does answer \<^verbatim>\<open>Unauthorized\<close>: for a request other than \<^verbatim>\<open>null\<close> whose
  token is absent or counts as false, and for a string token other than the secret that
  differs from it in \<^verbatim>\<open>.length\<close> or agrees with it in byte length (any token of ASCII
  characters is one or the other). Then the daemon's state is the same after as before.
  The handler rejects for \<^verbatim>\<open>null\<close> and when the comparison throws, and then only.
\<close>

lemma handleRequest_unauthorized:
  assumes "req \<noteq> JNull"
    and "js_get req ''token'' = None \<or> (\<exists>t. js_get req ''token'' = Some t \<and> falsy t)
     \<or> (\<exists>t. js_get req ''token'' = Some (JStr t) \<and> t \<noteq> SECRET_TOKEN d
            \<and> (length t \<noteq> length (SECRET_TOKEN d)
               \<or> length (Buffer_from t) = length (Buffer_from (SECRET_TOKEN d))))"
  shows "handleRequest from_object ops req d
           = Inr (Returned (error_response (js_get req ''id'') ''Unauthorized''), d)"
  using assms
  by (auto simp: handleRequest_def timingSafeEqual_cases Let_def)

lemma handleRequest_rejects_iff:
  "(\<exists>e. handleRequest from_object ops req d = Inl e) \<longleftrightarrow>
     req = JNull
     \<or> (\<exists>t e. js_get req ''token'' = Some t \<and> \<not> falsy t
            \<and> timingSafeEqual from_object t (SECRET_TOKEN d) = Inl e)"
  by (auto simp: handleRequest_def Let_def js_get_def
      split: option.splits bool.splits if_splits sum.splits)

lemma handleRequest_runs_method:
  assumes "js_get req ''token'' = Some tok" "\<not> falsy tok"
    and "timingSafeEqual from_object tok (SECRET_TOKEN d) = Inr True"
  shows "handleRequest from_object ops req d =
           Inr (run_method ops (js_get req ''id'') (js_get req ''method'')
                  (nullish_or (js_get req ''params'') (JObj [])) d)"
proof -
  from assms(1) have "req \<noteq> JNull"
    by (auto simp: js_get_def)
  with assms show ?thesis
    by (simp add: handleRequest_def)
qed

section \<open>The handler's effects\<close>

lemma handled_append [simp]: "handled (xs @ ys) = handled xs @ handled ys"
  by (induction xs) (auto split: action.splits)

lemma written_append [simp]: "written (xs @ ys) = written xs @ written ys"
  by (induction xs) (auto split: action.splits)

lemma written_map_SocketWrite [simp]: "written (map SocketWrite rs) = rs"
  by (induction rs) auto

lemma handled_map_SocketWrite [simp]: "handled (map SocketWrite rs) = []"
  by (induction rs) auto

lemma same_process_refl [simp]: "same_process d d"
  by (simp add: same_process_def)

lemma same_process_trans: "same_process a b \<Longrightarrow> same_process b c \<Longrightarrow> same_process a c"
  by (simp add: same_process_def)

lemma same_process_trace [simp]:
  "same_process (d\<lparr>trace := t\<rparr>) d' = same_process d d'"
  "same_process d (d'\<lparr>trace := t\<rparr>) = same_process d d'"
  by (simp_all add: same_process_def)

text \<open>
  A method leaves the process as it is and touches neither the list of requests handled
  nor the lines written; its response, returned or to come, has the \<^verbatim>\<open>id\<close> it was given;
  and the only method that changes the queue of the event loop is \<^verbatim>\<open>stop\<close>, which
  returns at once.
\<close>

lemma run_method_effect:
  assumes "run_method ops i m p d = (h, d')"
  shows "same_process d d' \<and> client d' = client d
         \<and> handled (trace d') = handled (trace d) \<and> written (trace d') = written (trace d)
         \<and> (\<forall>resp. h = Returned resp \<longrightarrow> rs_id resp = i)
         \<and> (immediates d' = immediates d
            \<or> m = Some (JStr ''stop'') \<and> immediates d' = immediates d @ [ShutdownTask]
              \<and> trace d' = trace d
              \<and> h = Returned (result_response i (VStr ''stopping'')))"
  using assms
  unfolding run_method_def call_session_def
  by (auto simp: result_response_def error_response_def same_process_def
      split: if_splits sum.splits)

lemma handleRequest_effect:
  assumes "handleRequest from_object ops req d = Inr (h, d')"
  shows "req \<noteq> JNull \<and> same_process d d' \<and> client d' = client d
         \<and> handled (trace d') = handled (trace d) \<and> written (trace d') = written (trace d)
         \<and> (\<forall>resp. h = Returned resp \<longrightarrow> rs_id resp = js_get req ''id'')"
  using assms
  unfolding handleRequest_def Let_def
  by (auto simp: error_response_def split: option.splits if_splits sum.splits bool.splits
      dest: run_method_effect)

lemma handleRequest_changes_queue:
  assumes "handleRequest from_object ops req d = Inr (h, d')" "immediates d' \<noteq> immediates d"
  shows "js_get req ''method'' = Some (JStr ''stop'')
         \<and> (\<exists>tok. js_get req ''token'' = Some tok \<and> \<not> falsy tok
               \<and> timingSafeEqual from_object tok (SECRET_TOKEN d) = Inr True)"
proof -
  from assms obtain tok where tok: "js_get req ''token'' = Some tok" "\<not> falsy tok"
    and t: "timingSafeEqual from_object tok (SECRET_TOKEN d) = Inr True"
    and r: "run_method ops (js_get req ''id'') (js_get req ''method'')
              (nullish_or (js_get req ''params'') (JObj [])) d = (h, d')"
    unfolding handleRequest_def Let_def
    by (auto split: option.splits if_splits sum.splits bool.splits)
  from run_method_effect[OF r] assms(2) have "js_get req ''method'' = Some (JStr ''stop'')"
    by auto
  with tok t show ?thesis by blast
qed

lemma dispatch_effect:
  assumes "dispatch from_object ops req d = (out, d')"
  shows "same_process d d' \<and> client d' = client d
         \<and> handled (trace d') = handled (trace d) \<and> written (trace d') = written (trace d)
         \<and> (case out of Answered resp \<Rightarrow> rs_id resp = js_get req ''id''
              | Caught resp \<Rightarrow> rs_id resp = js_get req ''id''
              | Uncaught e \<Rightarrow> req = JNull
              | Suspended i k \<Rightarrow> i = js_get req ''id'')"
proof (cases "handleRequest from_object ops req d")
  case (Inl e)
  with assms show ?thesis
    by (auto simp: dispatch_def error_response_def)
next
  case (Inr r)
  obtain h d0 where r: "r = (h, d0)" by (cases r)
  from handleRequest_effect[of from_object ops req d h d0] Inr r assms show ?thesis
    by (cases h) (auto simp: dispatch_def)
qed

lemma dispatch_Uncaught_iff:
  "(\<exists>e. fst (dispatch from_object ops req d) = Uncaught e) \<longleftrightarrow> req = JNull"
  by (auto simp: dispatch_def handleRequest_def split: sum.splits prod.splits handler_state.splits)

lemma resume_id [simp]: "rs_id (resume i k r) = i"
  by (cases r) (simp_all add: resume_def result_response_def error_response_def)







section \<open>Line buffering\<close>

lemma split_nl_lines_no_newline: "l \<in> set (split_nl s) \<Longrightarrow> CHR 0x0A \<notin> set l"
proof (induction s arbitrary: l)
  case Nil
  then show ?case by simp
next
  case (Cons c s)
  obtain x xs where s: "split_nl s = x # xs"
    by (cases "split_nl s") auto
  with Cons show ?case
    by (auto split: if_splits)
qed














text \<open>
  However many handlers are suspended, they are all gone once their Session operations
  have settled, one after another.
\<close>

lemma settle_all:
  assumes "exit_code d = None" "length (pending c) = n"
  shows "pending (fst (run parse from_object ops (replicate n (Settled 0 r)) (c, d))) = []"
  using assms
proof (induction n arbitrary: c d)
  case 0
  then show ?case by (simp add: run_def)
next
  case (Suc n)
  obtain c1 d1 where s: "on_settled 0 r (c, d) = (c1, d1)"
    by (cases "on_settled 0 r (c, d)")
  from s Suc.prems(1) have e: "exit_code d1 = None"
    by (auto simp: on_settled_def split: if_splits)
  from s Suc.prems(2) have l: "length (pending c1) = n"
    by (cases "pending c") (auto simp: on_settled_def)
  from Suc.prems(1) s
  have "run parse from_object ops (replicate (Suc n) (Settled 0 r)) (c, d)
          = run parse from_object ops (replicate n (Settled 0 r)) (c1, d1)"
    by (simp add: run_def daemon_step_def)
  with Suc.IH[OF e l] show ?case
    by simp
qed


section \<open>Shutdown\<close>

lemma removeDaemonState_total:
  "\<exists>fs'. removeDaemonState home fs = Inr fs'
     \<and> (DAEMON_STATE_FILE home \<notin> denied fs \<longrightarrow> files fs' (DAEMON_STATE_FILE home) = None)"
  by (auto simp: removeDaemonState_def try_catch_def fs_unlink_def split: option.splits sum.splits)

lemma shutdown_effect:
  "trace (shutdown ops d) = trace d @ [ServerClose, ClientDestroy, RemoveDaemonState, ProcessExit 0]
   \<and> \<not> listening (shutdown ops d) \<and> exit_code (shutdown ops d) = Some 0
   \<and> client (shutdown ops d) = client_destroy ops (client d)
   \<and> (DAEMON_STATE_FILE (daemon_home d) \<notin> denied (daemon_fs d)
        \<longrightarrow> files (daemon_fs (shutdown ops d)) (DAEMON_STATE_FILE (daemon_home d)) = None)"
proof -
  obtain fs' where r: "removeDaemonState (daemon_home d) (daemon_fs d) = Inr fs'"
    and f: "DAEMON_STATE_FILE (daemon_home d) \<notin> denied (daemon_fs d)
        \<longrightarrow> files fs' (DAEMON_STATE_FILE (daemon_home d)) = None"
    using removeDaemonState_total by blast
  then show ?thesis
    by (simp add: shutdown_def Let_def)
qed

text \<open>
  A turn in which a chunk arrives does no step of a shutdown: the daemon listens as
  before and holds the same Session and the same files. It ends the process in one case
  only: the socket is open and one of the complete lines, not blank, decodes to \<^verbatim>\<open>null\<close>.
  A turn in which a Session operation settles ends nothing.
\<close>

lemma process_lines_same_process:
  assumes "process_lines parse from_object ops ls d q = (d', q')"
  shows "same_process d d' \<and> client d' = client d
         \<and> length (uncaught q')
             = length (uncaught q) + length (filter (\<lambda>l. \<not> blank l \<and> parse l = Inr JNull) ls)"
  using assms
proof (induction ls arbitrary: d q)
  case Nil
  then show ?case by simp
next
  case (Cons l ls)
  show ?case
  proof (cases "blank l")
    case True
    with Cons show ?thesis by simp
  next
    case False
    show ?thesis
    proof (cases "parse l")
      case (Inl e)
      with False Cons.prems
      have "process_lines parse from_object ops ls
              (d\<lparr>trace := trace d @
                   [SocketWrite (error_response (Some (JStr ''?'')) ''Invalid JSON'')]\<rparr>) q
            = (d', q')"
        by simp
      from Cons.IH[OF this] False Inl show ?thesis by simp
    next
      case (Inr req)
      let ?d0 = "d\<lparr>trace := trace d @ [HandleRequest req]\<rparr>"
      obtain out d1 where a: "dispatch from_object ops req ?d0 = (out, d1)"
        by (cases "dispatch from_object ops req ?d0")
      from dispatch_effect[OF a] have e: "same_process d d1" "client d1 = client d"
        by simp_all
      from a dispatch_Uncaught_iff[of from_object ops req ?d0]
      have u: "(\<exists>x. out = Uncaught x) \<longleftrightarrow> req = JNull"
        by simp
      from False Inr Cons.prems a
      have "\<exists>q1. process_lines parse from_object ops ls d1 q1 = (d', q')
                \<and> length (uncaught q1) = length (uncaught q) + (if \<exists>x. out = Uncaught x then 1 else 0)"
        by (cases out) auto
      then obtain q1 where q1: "process_lines parse from_object ops ls d1 q1 = (d', q')"
        and n: "length (uncaught q1) = length (uncaught q) + (if req = JNull then 1 else 0)"
        using u by auto
      from Cons.IH[OF q1] e n False Inr show ?thesis
        by (auto intro: same_process_trans)
    qed
  qed
qed

lemma on_data_effect:
  assumes "on_data parse from_object ops chunk (c, d) = (c', d')"
  shows "SECRET_TOKEN d' = SECRET_TOKEN d \<and> listening d' = listening d
         \<and> daemon_fs d' = daemon_fs d \<and> daemon_home d' = daemon_home d
         \<and> client d' = client d \<and> destroyed c' = destroyed c
         \<and> exit_code d'
             = (if \<not> destroyed c
                   \<and> (\<exists>l \<in> set (butlast (split_nl (buf c @ chunk))). \<not> blank l \<and> parse l = Inr JNull)
                then Some 1 else exit_code d)"
proof -
  let ?ls = "butlast (split_nl (buf c @ chunk))"
  obtain d1 q where p: "process_lines parse from_object ops ?ls d no_callbacks = (d1, q)"
    by (cases "process_lines parse from_object ops ?ls d no_callbacks")
  from process_lines_same_process[OF p]
  have s: "same_process d d1" "client d1 = client d"
    and n: "length (uncaught q) = length (filter (\<lambda>l. \<not> blank l \<and> parse l = Inr JNull) ?ls)"
    by (simp_all add: no_callbacks_def)
  from n have "uncaught q = [] \<longleftrightarrow> filter (\<lambda>l. \<not> blank l \<and> parse l = Inr JNull) ?ls = []"
    by (metis length_0_conv)
  then have u: "uncaught q = [] \<longleftrightarrow> \<not> (\<exists>l \<in> set ?ls. \<not> blank l \<and> parse l = Inr JNull)"
    by (simp add: filter_empty_conv)
  from assms p have c': "c' = c\<lparr>buf := last (split_nl (buf c @ chunk)), pending := pending c @ waiting q\<rparr>"
    and d': "d' = (if destroyed c then d1 else run_callbacks q d1)"
    by (simp_all add: on_data_def)
  from s u c' d' show ?thesis
    by (auto simp: run_callbacks_def same_process_def Let_def)
qed

lemma on_settled_same_process:
  assumes "on_settled n r (c, d) = (c', d')"
  shows "same_process d d' \<and> client d' = client d \<and> destroyed c' = destroyed c
         \<and> immediates d' = immediates d"
  using assms by (auto simp: on_settled_def split: if_splits)

text \<open>
  Claim C3: an authenticated \<^verbatim>\<open>stop\<close> request is answered before the shutdown begins.
  The handler returns the success response and does nothing of the shutdown itself: it
  only queues the shutdown with \<^verbatim>\<open>setImmediate\<close>. In the turn in which the request line
  arrives, the daemon writes the response; it still listens, holds its Session and its
  state file, and has not exited. Only the later turn that runs the queued callback
  closes the listener, destroys the Session, removes the state file and exits, so the
  write of the response stands before every step of the shutdown in the daemon's trace.
  A request is authenticated when its token does not count as false and passes the
  comparison with the secret, as the secret itself does.
\<close>

theorem stop_answers_before_shutdown:
  assumes "js_get req ''method'' = Some (JStr ''stop'')"
    and "js_get req ''token'' = Some tok" and "\<not> falsy tok"
    and "timingSafeEqual from_object tok (SECRET_TOKEN d) = Inr True"
    and "parse line = Inr req" and "\<not> blank line" and "CHR 0x0A \<notin> set line"
    and "buf c = []" and "\<not> destroyed c" and "exit_code d = None" and "immediates d = []"
  shows "handleRequest from_object ops req d
           = Inr (Returned (result_response (js_get req ''id'') (VStr ''stopping'')),
                  d\<lparr>immediates := immediates d @ [ShutdownTask]\<rparr>)
         \<and> daemon_step parse from_object ops (c, d) (Data (line @ [CHR 0x0A]))
           = (c, d\<lparr>immediates := [ShutdownTask],
                   trace := trace d @ [HandleRequest req,
                              SocketWrite (result_response (js_get req ''id'') (VStr ''stopping''))]\<rparr>)
         \<and> trace (snd (run parse from_object ops [Data (line @ [CHR 0x0A]), Immediate] (c, d)))
           = trace d @ [HandleRequest req,
                        SocketWrite (result_response (js_get req ''id'') (VStr ''stopping'')),
                        ServerClose, ClientDestroy, RemoveDaemonState, ProcessExit 0]
         \<and> exit_code (snd (run parse from_object ops [Data (line @ [CHR 0x0A]), Immediate] (c, d)))
           = Some 0"
proof -
  let ?resp = "result_response (js_get req ''id'') (VStr ''stopping'') :: reply"
  have h: "\<And>d0 :: 'a daemon. SECRET_TOKEN d0 = SECRET_TOKEN d \<Longrightarrow>
      handleRequest from_object ops req d0
        = Inr (Returned ?resp, d0\<lparr>immediates := immediates d0 @ [ShutdownTask]\<rparr>)"
    using assms(1,2,3,4) by (simp add: handleRequest_runs_method run_method_def)
  have a: "dispatch from_object ops req (d\<lparr>trace := trace d @ [HandleRequest req]\<rparr>)
      = (Answered ?resp, d\<lparr>trace := trace d @ [HandleRequest req], immediates := [ShutdownTask]\<rparr>)"
    using h[of "d\<lparr>trace := trace d @ [HandleRequest req]\<rparr>"] assms(11)
    by (simp add: dispatch_def)
  have s: "split_nl (line @ [CHR 0x0A]) = [line, []]"
    using assms(7) split_nl_line[of line "[]"] by simp
  have od: "on_data parse from_object ops (line @ [CHR 0x0A]) (c, d)
      = (c, d\<lparr>immediates := [ShutdownTask],
              trace := trace d @ [HandleRequest req, SocketWrite ?resp]\<rparr>)"
    using assms(5,6,8,9) a by (simp add: on_data_def s no_callbacks_def run_callbacks_def)
  have st: "daemon_step parse from_object ops (c, d) (Data (line @ [CHR 0x0A]))
      = (c, d\<lparr>immediates := [ShutdownTask],
              trace := trace d @ [HandleRequest req, SocketWrite ?resp]\<rparr>)"
    using od assms(10) by (simp add: daemon_step_def)
  have im: "daemon_step parse from_object ops
        (c, d\<lparr>immediates := [ShutdownTask], trace := trace d @ [HandleRequest req, SocketWrite ?resp]\<rparr>)
        Immediate
      = (c, shutdown ops (d\<lparr>trace := trace d @ [HandleRequest req, SocketWrite ?resp], immediates := []\<rparr>))"
    using assms(10) by (simp add: daemon_step_def run_immediate_def)
  show ?thesis
    using h[of d] st im
      shutdown_effect[of ops "d\<lparr>trace := trace d @ [HandleRequest req, SocketWrite ?resp], immediates := []\<rparr>"]
    by (simp add: run_def)
qed

lemma JSON_parse_null: "JSON_parse null_line = Inr JNull"
  by code_simp

lemma null_line_facts: "\<not> blank null_line" "CHR 0x0A \<notin> set null_line"
  by (simp_all add: null_line_def blank_def is_js_space_def)

text \<open>
  Claim C9 says that \<^verbatim>\<open>IpcClient.destroy()\<close> changes nothing, so that the cleanup of a
  command never stops a running daemon, and that only the \<^verbatim>\<open>stop\<close> RPC or a termination
  signal does. The first part holds: \<^verbatim>\<open>destroy\<close> resolves, sends nothing on the network
  and leaves the daemon, its connection and its state file as they are, and so does the
  cleanup of a command, whatever handle it holds. The last part does not hold of the
  code: a line that holds \<^verbatim>\<open>null\<close> stops the daemon too. \<^verbatim>\<open>JSON.parse\<close> accepts the line,
  \<^verbatim>\<open>handleRequest\<close> rejects because it cannot take the properties of \<^verbatim>\<open>null\<close>, the \<^verbatim>\<open>catch\<close>
  callback throws in its turn on \<^verbatim>\<open>req.id\<close>, and the rejection that nobody handles ends
  the process with exit status 1, with no shutdown: the state file stays. A running
  daemon exits only in a turn that is a termination signal, that runs a queued
  shutdown, or in which such a line arrives on an open socket; and the handler queues a
  shutdown only for a request whose method is \<^verbatim>\<open>stop\<close> and whose token passes the
  comparison with the secret.
\<close>

theorem daemon_exits_on_null_line:
  "IpcClient_destroy p w = (Inr (), w)
   \<and> cleanup ops (Proxy p) w = (Proxy p, w)
   \<and> snd (cleanup ops h w) = w
   \<and> snd (daemon_step JSON_parse from_object ops
             (c\<lparr>buf := [], destroyed := False\<rparr>, d\<lparr>exit_code := None\<rparr>)
             (Data (null_line @ [CHR 0x0A])))
       = d\<lparr>exit_code := Some 1, trace := trace d @ [HandleRequest JNull, ProcessExit 1]\<rparr>
   \<and> (exit_code (snd cd) = None \<and> exit_code (snd (daemon_step parse from_object ops cd e)) \<noteq> None
        \<longrightarrow> e = Signal
            \<or> e = Immediate \<and> (\<exists>ts. immediates (snd cd) = ShutdownTask # ts)
            \<or> (\<exists>chunk. e = Data chunk \<and> \<not> destroyed (fst cd)
                  \<and> (\<exists>l \<in> set (butlast (split_nl (buf (fst cd) @ chunk))).
                         \<not> blank l \<and> parse l = Inr JNull)))
   \<and> (handleRequest from_object ops req d = Inr (hs, d') \<and> immediates d' \<noteq> immediates d
        \<longrightarrow> js_get req ''method'' = Some (JStr ''stop'')
            \<and> (\<exists>tok. js_get req ''token'' = Some tok \<and> \<not> falsy tok
                  \<and> timingSafeEqual from_object tok (SECRET_TOKEN d) = Inr True))"
proof -
  have cl: "snd (cleanup ops h w) = w"
    by (cases h) (simp_all add: cleanup_def IpcClient_destroy_def)
  have s: "split_nl (null_line @ [CHR 0x0A]) = [null_line, []]"
    using null_line_facts(2) split_nl_line[of null_line "[]"] by simp
  have nl: "snd (daemon_step JSON_parse from_object ops
             (c\<lparr>buf := [], destroyed := False\<rparr>, d\<lparr>exit_code := None\<rparr>)
             (Data (null_line @ [CHR 0x0A])))
       = d\<lparr>exit_code := Some 1, trace := trace d @ [HandleRequest JNull, ProcessExit 1]\<rparr>"
    by (simp add: daemon_step_def on_data_def s null_line_facts JSON_parse_null dispatch_def
        handleRequest_def no_callbacks_def run_callbacks_def)
  obtain c0 d0 where cd: "cd = (c0, d0)" by (cases cd)
  have step: "exit_code (snd cd) = None \<and> exit_code (snd (daemon_step parse from_object ops cd e)) \<noteq> None
        \<longrightarrow> e = Signal
            \<or> e = Immediate \<and> (\<exists>ts. immediates (snd cd) = ShutdownTask # ts)
            \<or> (\<exists>chunk. e = Data chunk \<and> \<not> destroyed (fst cd)
                  \<and> (\<exists>l \<in> set (butlast (split_nl (buf (fst cd) @ chunk))).
                         \<not> blank l \<and> parse l = Inr JNull))"
  proof (cases e)
    case (Data chunk)
    obtain c1 d1 where o: "on_data parse from_object ops chunk (c0, d0) = (c1, d1)"
      by (cases "on_data parse from_object ops chunk (c0, d0)")
    from on_data_effect[OF o] Data cd o show ?thesis
      by (auto simp: daemon_step_def split: if_splits)
  next
    case (Settled n r)
    obtain c1 d1 where o: "on_settled n r (c0, d0) = (c1, d1)"
      by (cases "on_settled n r (c0, d0)")
    from on_settled_same_process[OF o] Settled cd o show ?thesis
      by (simp add: daemon_step_def same_process_def)
  next
    case SocketClosed
    then show ?thesis by (simp add: daemon_step_def)
  next
    case Signal
    then show ?thesis by simp
  next
    case Immediate
    then show ?thesis
      by (cases "immediates (snd cd)") (auto simp: daemon_step_def run_immediate_def split: task.splits)
  qed
  show ?thesis
    using step cl nl handleRequest_changes_queue[of from_object ops req d hs d']
    by (simp add: IpcClient_destroy_def cleanup_def)
qed

section \<open>The daemon on examples\<close>






lemma example_daemon_facts:
  "exit_code example_daemon = None" "immediates example_daemon = []" "trace example_daemon = []"
  "buf fresh_conn = []" "\<not> destroyed fresh_conn" "pending fresh_conn = []"
  "SECRET_TOKEN example_daemon = short_secret"
  by (simp_all add: example_daemon_def fresh_conn_def)




lemma stop_line_facts:
  "JSON_parse stop_line = Inr stop_request" "\<not> blank stop_line" "CHR 0x0A \<notin> set stop_line"
  by code_simp+

lemma stop_request_facts:
  "js_get stop_request ''method'' = Some (JStr ''stop'')"
  "js_get stop_request ''token'' = Some (JStr short_secret)"
  "\<not> falsy (JStr short_secret)"
  "timingSafeEqual from_object (JStr short_secret) (SECRET_TOKEN example_daemon) = Inr True"
  "js_get stop_request ''id'' = Some (JStr ''9'')"
  by (simp_all add: stop_request_def request_of_def js_get_def example_daemon_def short_secret_def
      timingSafeEqual_same)

theorem stop_answers_before_shutdown_witness:
  "js_get stop_request ''method'' = Some (JStr ''stop'')
   \<and> js_get stop_request ''token'' = Some (JStr short_secret) \<and> \<not> falsy (JStr short_secret)
   \<and> timingSafeEqual strict_platform (JStr short_secret) (SECRET_TOKEN example_daemon) = Inr True
   \<and> JSON_parse stop_line = Inr stop_request \<and> \<not> blank stop_line \<and> CHR 0x0A \<notin> set stop_line
   \<and> buf fresh_conn = [] \<and> \<not> destroyed fresh_conn
   \<and> exit_code example_daemon = None \<and> immediates example_daemon = []
   \<and> trace (snd (daemon_step JSON_parse strict_platform unit_session (fresh_conn, example_daemon)
                    (Data (stop_line @ [CHR 0x0A]))))
       = [HandleRequest stop_request,
          SocketWrite (result_response (Some (JStr ''9'')) (VStr ''stopping''))]
   \<and> exit_code (snd (daemon_step JSON_parse strict_platform unit_session (fresh_conn, example_daemon)
                    (Data (stop_line @ [CHR 0x0A])))) = None
   \<and> trace (snd (run JSON_parse strict_platform unit_session [Data (stop_line @ [CHR 0x0A]), Immediate]
                    (fresh_conn, example_daemon)))
       = [HandleRequest stop_request,
          SocketWrite (result_response (Some (JStr ''9'')) (VStr ''stopping'')),
          ServerClose, ClientDestroy, RemoveDaemonState, ProcessExit 0]"
proof -
  note r = stop_answers_before_shutdown[where parse = JSON_parse and line = stop_line
      and req = stop_request and d = example_daemon and c = fresh_conn and ops = unit_session
      and from_object = strict_platform and tok = "JStr short_secret",
      OF stop_request_facts(1,2,3,4) stop_line_facts example_daemon_facts(4,5,1,2)]
  from r have b: "daemon_step JSON_parse strict_platform unit_session (fresh_conn, example_daemon)
       (Data (stop_line @ [CHR 0x0A]))
      = (fresh_conn, example_daemon\<lparr>immediates := [ShutdownTask],
           trace := trace example_daemon @ [HandleRequest stop_request,
                      SocketWrite (result_response (js_get stop_request ''id'') (VStr ''stopping''))]\<rparr>)"
    by blast
  from r have c: "trace (snd (run JSON_parse strict_platform unit_session
                    [Data (stop_line @ [CHR 0x0A]), Immediate] (fresh_conn, example_daemon)))
       = trace example_daemon @ [HandleRequest stop_request,
          SocketWrite (result_response (js_get stop_request ''id'') (VStr ''stopping'')),
          ServerClose, ClientDestroy, RemoveDaemonState, ProcessExit 0]"
    by blast
  have t: "trace (snd (daemon_step JSON_parse strict_platform unit_session (fresh_conn, example_daemon)
                    (Data (stop_line @ [CHR 0x0A]))))
       = [HandleRequest stop_request,
          SocketWrite (result_response (Some (JStr ''9'')) (VStr ''stopping''))]"
    and x: "exit_code (snd (daemon_step JSON_parse strict_platform unit_session (fresh_conn, example_daemon)
                    (Data (stop_line @ [CHR 0x0A])))) = None"
    by (simp_all only: b snd_conv) (simp_all add: example_daemon_facts stop_request_facts)
  from c have c': "trace (snd (run JSON_parse strict_platform unit_session
                    [Data (stop_line @ [CHR 0x0A]), Immediate] (fresh_conn, example_daemon)))
       = [HandleRequest stop_request,
          SocketWrite (result_response (Some (JStr ''9'')) (VStr ''stopping'')),
          ServerClose, ClientDestroy, RemoveDaemonState, ProcessExit 0]"
    by (simp only: example_daemon_facts stop_request_facts append_Nil)
  from t x c' stop_request_facts(1,2,3) stop_request_facts(4)[of strict_platform]
    stop_line_facts example_daemon_facts
  show ?thesis
    by blast
qed

text \<open>
  A \<^verbatim>\<open>stop\<close> request whose token is the array of the character codes of the secret is
  authenticated as well.
\<close>

lemma handleRequest_code_token:
  "handleRequest from_object unit_session (request_of ''7'' ''stop'' code_token) example_daemon
     = Inr (Returned (result_response (Some (JStr ''7'')) (VStr ''stopping'')),
            example_daemon\<lparr>immediates := [ShutdownTask]\<rparr>)"
proof -
  have "\<not> falsy code_token"
    by (simp add: code_token_def)
  then show ?thesis
    using handleRequest_runs_method[where req = "request_of ''7'' ''stop'' code_token"
        and tok = code_token and from_object = from_object and d = example_daemon
        and ops = unit_session] timingSafeEqual_code_token[of from_object]
    by (simp add: request_of_def js_get_def run_method_def example_daemon_facts)
qed

theorem daemon_exits_witness:
  "IpcClient_destroy example_proxy example_world = (Inr (), example_world)
   \<and> cleanup unit_session (Proxy example_proxy) example_world = (Proxy example_proxy, example_world)
   \<and> exit_code (snd (fresh_conn, example_daemon)) = None
   \<and> exit_code (snd (daemon_step JSON_parse strict_platform unit_session
                        (fresh_conn, example_daemon) (Data (null_line @ [CHR 0x0A])))) = Some 1
   \<and> daemon_fs (snd (daemon_step JSON_parse strict_platform unit_session
                        (fresh_conn, example_daemon) (Data (null_line @ [CHR 0x0A]))))
       = daemon_fs example_daemon
   \<and> exit_code (snd (fresh_conn, example_daemon\<lparr>immediates := [ShutdownTask]\<rparr>)) = None
   \<and> exit_code (snd (daemon_step JSON_parse strict_platform unit_session
                        (fresh_conn, example_daemon\<lparr>immediates := [ShutdownTask]\<rparr>) Immediate)) \<noteq> None
   \<and> handleRequest strict_platform unit_session stop_request example_daemon
       = Inr (Returned (result_response (Some (JStr ''9'')) (VStr ''stopping'')),
              example_daemon\<lparr>immediates := [ShutdownTask]\<rparr>)
   \<and> immediates (example_daemon\<lparr>immediates := [ShutdownTask]\<rparr>) \<noteq> immediates example_daemon
   \<and> js_get stop_request ''method'' = Some (JStr ''stop'')
   \<and> timingSafeEqual strict_platform (JStr short_secret) (SECRET_TOKEN example_daemon) = Inr True"
proof -
  have h: "handleRequest strict_platform unit_session stop_request example_daemon
       = Inr (Returned (result_response (Some (JStr ''9'')) (VStr ''stopping'')),
              example_daemon\<lparr>immediates := [ShutdownTask]\<rparr>)"
    using handleRequest_runs_method[OF stop_request_facts(2,3,4), of strict_platform unit_session]
    by (simp add: run_method_def stop_request_facts example_daemon_facts)
  have q: "immediates (example_daemon\<lparr>immediates := [ShutdownTask]\<rparr>) \<noteq> immediates example_daemon"
    by (simp add: example_daemon_facts)
  have e: "exit_code (snd (daemon_step JSON_parse strict_platform unit_session
                        (fresh_conn, example_daemon\<lparr>immediates := [ShutdownTask]\<rparr>) Immediate)) \<noteq> None"
    using shutdown_effect[of unit_session "example_daemon\<lparr>immediates := []\<rparr>"]
    by (simp add: daemon_step_def run_immediate_def example_daemon_facts)
  have u: "fresh_conn\<lparr>buf := [], destroyed := False\<rparr> = fresh_conn"
    "example_daemon\<lparr>exit_code := None\<rparr> = example_daemon"
    by (simp_all add: fresh_conn_def example_daemon_def)
  from daemon_exits_on_null_line[where p = example_proxy and w = example_world
      and ops = unit_session and h = "Proxy example_proxy"
      and from_object = strict_platform and c = fresh_conn
      and cd = "(fresh_conn, example_daemon\<lparr>immediates := [ShutdownTask]\<rparr>)"
      and parse = JSON_parse and e = Immediate
      and req = stop_request and d = example_daemon
      and hs = "Returned (result_response (Some (JStr ''9'')) (VStr ''stopping''))"
      and d' = "example_daemon\<lparr>immediates := [ShutdownTask]\<rparr>"]
    h q e
  show ?thesis
    by (simp add: example_daemon_facts u stop_request_facts)
qed

section \<open>Date revival\<close>

lemma obj_put_fresh: "k \<notin> fst ` set out \<Longrightarrow> obj_put out k v = out @ [(k, v)]"
  by (induction out) auto

lemma foldl_js_assign:
  assumes "distinct (map fst kvs)" and "''__proto__'' \<notin> fst ` set kvs"
    and "fst ` set out \<inter> fst ` set kvs = {}"
  shows "foldl (\<lambda>out (k, v). js_assign out k (f v)) out kvs = out @ map (\<lambda>(k, v). (k, f v)) kvs"
  using assms
proof (induction kvs arbitrary: out)
  case Nil
  show ?case by simp
next
  case (Cons kv kvs)
  obtain k v where kv: "kv = (k, v)" by (cases kv)
  from Cons.prems kv have fresh: "k \<notin> fst ` set out" and np: "k \<noteq> ''__proto__''"
    by auto
  have step: "js_assign out k (f v) = out @ [(k, f v)]"
    using fresh np by (simp add: js_assign_def obj_put_fresh)
  have disj: "fst ` set (out @ [(k, f v)]) \<inter> fst ` set kvs = {}"
    using Cons.prems kv by auto
  from Cons.prems kv have d: "distinct (map fst kvs)" and p: "''__proto__'' \<notin> fst ` set kvs"
    by auto
  from Cons.IH[OF d p disj] step kv show ?case
    by simp
qed

lemma reviveDates_map_strings:
  "well_keyed v \<Longrightarrow> reviveDates host v = map_strings (\<lambda>s. reviveDates host (JStr s)) v"
proof (induction v)
  case (JArr xs)
  then show ?case
    by (simp add: list_all_iff)
next
  case (JObj kvs)
  from JObj.prems have d: "distinct (map fst kvs)" and p: "''__proto__'' \<notin> fst ` set kvs"
    and wk: "\<And>k v. (k, v) \<in> set kvs \<Longrightarrow> well_keyed v"
    by (auto simp: list_all_iff)
  have "reviveDates host (JObj kvs) = VObj (map (\<lambda>(k, v). (k, reviveDates host v)) kvs)"
    using foldl_js_assign[OF d p, of "[]" "reviveDates host"] by simp
  also have "map (\<lambda>(k, v). (k, reviveDates host v)) kvs
      = map (\<lambda>(k, v). (k, map_strings (\<lambda>s. reviveDates host (JStr s)) v)) kvs"
  proof (rule map_cong[OF refl])
    fix kv assume kv: "kv \<in> set kvs"
    obtain k v where e: "kv = (k, v)" by (cases kv)
    from kv e have "v \<in> Basic_BNFs.snds kv" by simp
    from JObj.IH[OF kv this] wk kv e
    show "(case kv of (k, v) \<Rightarrow> (k, reviveDates host v))
        = (case kv of (k, v) \<Rightarrow> (k, map_strings (\<lambda>s. reviveDates host (JStr s)) v))"
      by simp
  qed
  finally show ?case by simp
qed simp_all

text \<open>
  Claim C8, as amended: on a JSON-decoded value whose objects have no key \<^verbatim>\<open>__proto__\<close>,
  \<^const>\<open>reviveDates\<close> is the map over the strings of the value, at every depth of arrays
  and objects: it keeps the arrays, the objects with their keys and their order and the
  other primitives, and replaces each string by what it returns for that string. For a
  string it returns a Date when the string matches the date-time pattern and the Date
  built from it is valid, and the string itself otherwise: when it does not match, and
  when it matches and gives an invalid Date.
\<close>

theorem reviveDates_spec:
  "(well_keyed v \<longrightarrow> reviveDates host v = map_strings (\<lambda>s. reviveDates host (JStr s)) v)
   \<and> (\<not> ISO_RE_test s \<longrightarrow> reviveDates host (JStr s) = VStr s)
   \<and> (ISO_RE_test s \<and> Date_getTime host s = None \<longrightarrow> reviveDates host (JStr s) = VStr s)
   \<and> (ISO_RE_test s \<and> Date_getTime host s = Some t \<longrightarrow> reviveDates host (JStr s) = VDate t)"
  by (simp add: reviveDates_map_strings)

lemma month_13: "ISO_RE_test ''2024-13-01T00:00:00'' \<and> \<not> element_values_legal ''2024-13-01T00:00:00''"
  by code_simp

text \<open>
  The claim as it was written fails: the string \<^verbatim>\<open>2024-13-01T00:00:00\<close> matches the
  pattern and names no date, so it is returned as it is, even by a runtime that would
  accept every string the standard lets it accept.
\<close>

theorem reviveDates_keeps_invalid_date:
  "ISO_RE_test ''2024-13-01T00:00:00''
   \<and> reviveDates lenient_host (JStr ''2024-13-01T00:00:00'') = VStr ''2024-13-01T00:00:00''"
  using month_13 by (simp add: Date_getTime_def)

lemma example_strings:
  "\<not> ISO_RE_test ''Ada''"
  "ISO_RE_test ''2024-05-01T10:00:00.000Z''"
  "Date_getTime example_host ''2024-05-01T10:00:00.000Z'' = Some 1714557600000"
  "Date_getTime example_host ''2024-13-01T00:00:00'' = None"
proof -
  show "\<not> ISO_RE_test ''Ada''" by code_simp
  show "ISO_RE_test ''2024-05-01T10:00:00.000Z''" by code_simp
  have "element_values_legal ''2024-05-01T10:00:00.000Z''" by code_simp
  then show "Date_getTime example_host ''2024-05-01T10:00:00.000Z'' = Some 1714557600000"
    by (simp add: Date_getTime_def example_host_def)
  show "Date_getTime example_host ''2024-13-01T00:00:00'' = None"
    using month_13 by (simp add: Date_getTime_def)
qed

theorem reviveDates_spec_witness:
  "well_keyed example_result
   \<and> \<not> ISO_RE_test ''Ada'' \<and> reviveDates example_host (JStr ''Ada'') = VStr ''Ada''
   \<and> ISO_RE_test ''2024-13-01T00:00:00'' \<and> Date_getTime example_host ''2024-13-01T00:00:00'' = None
   \<and> reviveDates example_host (JStr ''2024-13-01T00:00:00'') = VStr ''2024-13-01T00:00:00''
   \<and> ISO_RE_test ''2024-05-01T10:00:00.000Z''
   \<and> Date_getTime example_host ''2024-05-01T10:00:00.000Z'' = Some 1714557600000
   \<and> reviveDates example_host (JStr ''2024-05-01T10:00:00.000Z'') = VDate 1714557600000
   \<and> reviveDates example_host example_result
       = VArr [VObj [(''name'', VStr ''Ada''), (''timestamp'', VDate 1714557600000),
                     (''unreadCount'', VNum 2), (''note'', VStr ''2024-13-01T00:00:00'')],
               VNull]"
proof -
  have wk: "well_keyed example_result"
    by (simp add: example_result_def)
  have b: "ISO_RE_test ''2024-13-01T00:00:00''"
    using month_13 by simp
  note r1 = reviveDates_spec[of example_result example_host "''Ada''"]
  note r2 = reviveDates_spec[of example_result example_host "''2024-13-01T00:00:00''"]
  note r3 = reviveDates_spec[of example_result example_host "''2024-05-01T10:00:00.000Z''" 1714557600000]
  from r1 example_strings(1) have e1: "reviveDates example_host (JStr ''Ada'') = VStr ''Ada''"
    by blast
  from r2 b example_strings(4)
  have e2: "reviveDates example_host (JStr ''2024-13-01T00:00:00'') = VStr ''2024-13-01T00:00:00''"
    by blast
  from r3 example_strings(2,3)
  have e3: "reviveDates example_host (JStr ''2024-05-01T10:00:00.000Z'') = VDate 1714557600000"
    by blast
  from r1 wk have "reviveDates example_host example_result
      = map_strings (\<lambda>s. reviveDates example_host (JStr s)) example_result"
    by blast
  also have "\<dots> = VArr [VObj [(''name'', VStr ''Ada''), (''timestamp'', VDate 1714557600000),
                     (''unreadCount'', VNum 2), (''note'', VStr ''2024-13-01T00:00:00'')],
               VNull]"
    unfolding example_result_def
    by (simp only: map_strings.simps list.map prod.case e1 e2 e3)
  finally have e4: "reviveDates example_host example_result
       = VArr [VObj [(''name'', VStr ''Ada''), (''timestamp'', VDate 1714557600000),
                     (''unreadCount'', VNum 2), (''note'', VStr ''2024-13-01T00:00:00'')],
               VNull]" .
  from wk b example_strings e1 e2 e3 e4 show ?thesis by blast
qed

section \<open>The connection strategy\<close>

lemma readDaemonState_total: "\<exists>v. readDaemonState parse home fs = Inr v"
  by (auto simp: readDaemonState_def try_catch_def and_then_def split: sum.splits)

lemma tryConnectDaemon_probe:
  "tryConnectDaemon parse env home fs =
     (if probe_succeeds parse env home fs
      then (case readDaemonState parse home fs of
              Inl e \<Rightarrow> Inl e
            | Inr state \<Rightarrow> Inr (Some \<lparr>ipc_port = js_get state ''port'', ipc_token = js_get state ''token''\<rparr>))
      else Inr None)"
proof -
  obtain state where s: "readDaemonState parse home fs = Inr state"
    using readDaemonState_total by blast
  show ?thesis
    by (simp add: tryConnectDaemon_def probe_succeeds_def s and_then_def split: sum.splits)
qed

text \<open>
  Claim C4, as amended: \<^const>\<open>connectClient\<close> returns an IPC proxy exactly when the probe
  succeeds, that is, when the state file reads as a value that counts as true and the
  \<^verbatim>\<open>ping\<close> call made with its port and token and a timeout of 1500 ms resolves; the proxy
  holds that port and token. When the probe fails, \<^const>\<open>connectClient\<close> takes the slow
  path: it makes a private Session and waits for it, returns that Session when \<^verbatim>\<open>ready\<close>
  comes first, and rejects when \<^verbatim>\<open>qr\<close>, an error, a rejected \<^verbatim>\<open>initialize()\<close> or the
  timer comes first.
\<close>

theorem connectClient_fast_or_slow:
  "((\<exists>c. connectClient parse env home fs fresh boot = Inr (Proxy c)) \<longleftrightarrow> probe_succeeds parse env home fs)
   \<and> (probe_succeeds parse env home fs \<longrightarrow>
        (\<exists>state. readDaemonState parse home fs = Inr state
           \<and> connectClient parse env home fs fresh boot
               = Inr (Proxy \<lparr>ipc_port = js_get state ''port'', ipc_token = js_get state ''token''\<rparr>)))
   \<and> (\<not> probe_succeeds parse env home fs \<longrightarrow>
        connectClient parse env home fs fresh boot
          = (case await_ready boot of Inl e \<Rightarrow> Inl e | Inr u \<Rightarrow> Inr (Direct fresh)))
   \<and> (\<not> probe_succeeds parse env home fs \<and> (\<exists>evs. boot = EvReady # evs) \<longrightarrow>
        connectClient parse env home fs fresh boot = Inr (Direct fresh))"
proof -
  obtain state where s: "readDaemonState parse home fs = Inr state"
    using readDaemonState_total by blast
  show ?thesis
    by (auto simp: connectClient_def tryConnectDaemon_probe s and_then_def await_ready_def
        split: sum.splits)
qed

text \<open>
  The claim as it was written fails where it says that every failed probe ends with a
  private Session returned: with no state file and a Session that asks for a QR code,
  \<^const>\<open>connectClient\<close> rejects.
\<close>

theorem connectClient_rejects_when_not_logged_in:
  "\<not> probe_succeeds JSON_parse (example_env []) example_home empty_fs
   \<and> connectClient JSON_parse (example_env []) example_home empty_fs () [EvQr]
       = Inl (Error ''Not logged in. Run:  whatsapp-cli auth login'')"
proof -
  have r: "readDaemonState JSON_parse example_home empty_fs = Inr JNull"
    by (simp add: readDaemonState_def try_catch_def and_then_def fs_readFile_def empty_fs_def)
  then have p: "\<not> probe_succeeds JSON_parse (example_env []) example_home empty_fs"
    by (simp add: probe_succeeds_def)
  with r show ?thesis
    by (simp add: connectClient_def tryConnectDaemon_probe and_then_def await_ready_def)
qed

section \<open>Why a probe fails\<close>

lemma settled_stays:
  "settled st \<noteq> None \<Longrightarrow> foldl (socket_step env req) st evs = st"
  by (induction evs) (simp_all add: socket_step_def)

lemma callPort_no_event:
  "socket_events env = [] \<or> socket_events env = [SockConnect] \<Longrightarrow>
   fst (callPort env p t m prm (Some 1500))
     = Inl (Error (''IPC call '' @ quoted m @ '' timed out after '' @ Number_toString 1500 @ '' ms''))"
  by (auto simp: callPort_def Let_def socket_step_def)

lemma callPort_socket_error:
  "socket_events env = SockError e # evs \<Longrightarrow> fst (callPort env p t m prm ms) = Inl e"
  by (simp add: callPort_def Let_def socket_step_def settled_stays)

lemma callPort_error_response:
  assumes "socket_events env = SockConnect # SockData (line @ [CHR 0x0A]) # evs"
    and "CHR 0x0A \<notin> set line" and "\<not> blank line"
    and "decode env line = Some (error_response (random_id env) (c # msg))"
  shows "fst (callPort env p t m prm ms) = Inl (Error (c # msg))"
proof -
  have s: "split_nl (line @ [CHR 0x0A]) = [line, []]"
    using assms(2) split_nl_line[of line "[]"] by simp
  show ?thesis
    using assms(1,3,4)
    by (simp add: callPort_def Let_def socket_step_def s settled_stays settle_def error_response_def)
qed

lemma probe_fails:
  "files fs (DAEMON_STATE_FILE home) = None \<Longrightarrow> \<not> probe_succeeds parse env home fs"
  "fst (callPort env (js_get state ''port'') (js_get state ''token'') ''ping'' None (Some 1500)) = Inl e
     \<Longrightarrow> readDaemonState parse home fs = Inr state \<Longrightarrow> \<not> probe_succeeds parse env home fs"
  by (simp_all add: probe_succeeds_def readDaemonState_def try_catch_def and_then_def fs_readFile_def)

lemma read_live_fs: "readDaemonState JSON_parse example_home live_fs = Inr (DaemonState_json example_state)"
  by (simp add: live_fs_def readDaemonState_present parse_json_text_DaemonState)

lemma example_state_fields:
  "\<not> falsy (DaemonState_json example_state)"
  "js_get (DaemonState_json example_state) ''port'' = Some (JNum 51234)"
  "js_get (DaemonState_json example_state) ''token'' = Some (JStr hex_secret)"
  by (simp_all add: DaemonState_json_def js_get_def example_state_def)

lemma ping_answered:
  "fst (callPort (example_env pong_events) (Some (JNum 51234)) (Some (JStr hex_secret)) ''ping'' None (Some 1500))
     = Inr (VStr ''pong'')"
  by code_simp

lemma ping_refused:
  "fst (callPort (example_env refused_events) (Some (JNum 51234)) (Some (JStr hex_secret)) ''ping'' None (Some 1500))
     = Inl (SystemError ''ECONNREFUSED'')"
  by code_simp

lemma ping_unauthorized:
  "fst (callPort (example_env unauthorized_events) (Some (JNum 51234)) (Some (JStr hex_secret)) ''ping'' None (Some 1500))
     = Inl (Error ''Unauthorized'')"
  by code_simp

lemma token_mismatch_takes_slow_path:
  "\<not> probe_succeeds JSON_parse (example_env unauthorized_events) example_home live_fs
   \<and> tryConnectDaemon JSON_parse (example_env unauthorized_events) example_home live_fs = Inr None"
proof -
  have "\<not> probe_succeeds JSON_parse (example_env unauthorized_events) example_home live_fs"
    by (simp add: probe_succeeds_def read_live_fs example_state_fields ping_unauthorized)
  then show ?thesis
    by (simp add: tryConnectDaemon_probe)
qed

theorem connectClient_fast_or_slow_witness:
  "probe_succeeds JSON_parse (example_env pong_events) example_home live_fs
   \<and> connectClient JSON_parse (example_env pong_events) example_home live_fs () []
       = Inr (Proxy \<lparr>ipc_port = Some (JNum 51234), ipc_token = Some (JStr hex_secret)\<rparr>)
   \<and> \<not> probe_succeeds JSON_parse (example_env refused_events) example_home live_fs
   \<and> connectClient JSON_parse (example_env refused_events) example_home live_fs () [EvReady]
       = Inr (Direct ())
   \<and> connectClient JSON_parse (example_env refused_events) example_home live_fs () []
       = Inl (Error ''Timed out waiting for WhatsApp (90 s). Is your phone connected?'')"
proof -
  have p: "probe_succeeds JSON_parse (example_env pong_events) example_home live_fs"
    by (simp add: probe_succeeds_def read_live_fs example_state_fields ping_answered)
  have q: "\<not> probe_succeeds JSON_parse (example_env refused_events) example_home live_fs"
    by (simp add: probe_succeeds_def read_live_fs example_state_fields ping_refused)
  note t1 = connectClient_fast_or_slow[of JSON_parse "example_env pong_events" example_home live_fs "()" "[]"]
  note t2 = connectClient_fast_or_slow[of JSON_parse "example_env refused_events" example_home live_fs "()" "[EvReady]"]
  note t3 = connectClient_fast_or_slow[of JSON_parse "example_env refused_events" example_home live_fs "()" "[]"]
  from t1 p have a: "connectClient JSON_parse (example_env pong_events) example_home live_fs () []
       = Inr (Proxy \<lparr>ipc_port = Some (JNum 51234), ipc_token = Some (JStr hex_secret)\<rparr>)"
    by (auto simp: read_live_fs example_state_fields)
  from t2 q have b: "connectClient JSON_parse (example_env refused_events) example_home live_fs () [EvReady]
       = Inr (Direct ())"
    by blast
  from t3 q have c: "connectClient JSON_parse (example_env refused_events) example_home live_fs () []
       = Inl (Error ''Timed out waiting for WhatsApp (90 s). Is your phone connected?'')"
    by (simp add: await_ready_def)
  from p q a b c show ?thesis by blast
qed

end
